theory Spec2Isabelle
  imports Main "HOL-Library.Word" "HOL-Library.Sublist"
begin

section \<open>Strings, paths and JavaScript values\<close>

text \<open>
  Bytes are 8-bit words, a path is a string, and the temp directory is a finite map from
  paths to file contents. Only regular files are modelled: \<open>fs.pathExists p\<close> is
  \<open>fs p \<noteq> None\<close>, \<open>fs.stat(p).size\<close> is the length of the contents.
\<close>

type_synonym byte = "8 word"
type_synonym path = string
type_synonym filesystem = "path \<Rightarrow> byte list option"

text \<open>
  \<open>path.join(a, b)\<close> on a POSIX host, for segments that need no normalisation: the
  two segments with a slash between them. Identifiers holding \<open>/\<close>, \<open>.\<close> or
  \<open>..\<close> segments, which \<open>path.join\<close> would normalise, are joined as they are.
\<close>

definition path_join :: "path \<Rightarrow> string \<Rightarrow> path" where
  "path_join dir name = dir @ ''/'' @ name"

text \<open>\<open>const TEMP_DIR = path.join(process.cwd(), "temp")\<close>, with the working directory a parameter.\<close>

definition TEMP_DIR :: "path \<Rightarrow> path" where
  "TEMP_DIR cwd = path_join cwd ''temp''"

text \<open>
  \<open>String.prototype.replace\<close> with a string pattern: the first occurrence only. None of
  the replacement strings of the program holds a \<open>$\<close>, so replacement patterns play no role.
\<close>

fun js_replace :: "string \<Rightarrow> string \<Rightarrow> string \<Rightarrow> string" where
  "js_replace pat rep [] = (if pat = [] then rep else [])"
| "js_replace pat rep (c # cs) =
     (if prefix pat (c # cs) then rep @ drop (length pat) (c # cs)
      else c # js_replace pat rep cs)"

text \<open>\<open>String.prototype.toLowerCase\<close> on the ASCII letters.\<close>

definition lower_char :: "char \<Rightarrow> char" where
  "lower_char c =
     (let n = (of_char c :: nat) in if 65 \<le> n \<and> n \<le> 90 then char_of (n + 32) else c)"

definition toLowerCase :: "string \<Rightarrow> string" where
  "toLowerCase s = map lower_char s"

text \<open>
  \<open>path.extname\<close> of Node (POSIX): trailing slashes are ignored, the last segment is
  the base name, and the extension runs from the last dot of the base name to its end. It is
  empty when the base name has no dot, when its only dot is its first character, and for the
  base name \<open>..\<close>.
\<close>

definition last_segment :: "path \<Rightarrow> string" where
  "last_segment p =
     rev (takeWhile (\<lambda>c. c \<noteq> CHR ''/'') (dropWhile (\<lambda>c. c = CHR ''/'') (rev p)))"

definition extname :: "path \<Rightarrow> string" where
  "extname p =
     (let b = last_segment p;
          e = rev (takeWhile (\<lambda>c. c \<noteq> CHR ''.'') (rev b));
          stem = take (length b - length e - 1) b
      in if CHR ''.'' \<notin> set b then []
         else if stem = [] then []
         else if b = ''..'' then []
         else CHR ''.'' # e)"

text \<open>
  The values a property read can yield. \<open>JObject\<close> stands for any object or function,
  named by where it came from; it is truthy and it is not a string.
\<close>

datatype js_value =
    JUndefined
  | JNull
  | JBool bool
  | JNum int
  | JStr string
  | JObject string

fun truthy :: "js_value \<Rightarrow> bool" where
  "truthy JUndefined = False"
| "truthy JNull = False"
| "truthy (JBool b) = b"
| "truthy (JNum n) = (n \<noteq> 0)"
| "truthy (JStr s) = (s \<noteq> [])"
| "truthy (JObject _) = True"

text \<open>\<open>a || b\<close>\<close>

definition js_or :: "js_value \<Rightarrow> js_value \<Rightarrow> js_value" where
  "js_or a b = (if truthy a then a else b)"

text \<open>
  A property read \<open>obj[key]\<close> on an object literal whose own properties are strings: an
  own property wins; otherwise the read finds what the literal inherits from
  \<open>Object.prototype\<close>, and \<open>undefined\<close> for every other key.
\<close>

definition object_prototype_names :: "string list" where
  "object_prototype_names =
     [''constructor'', ''__defineGetter__'', ''__defineSetter__'', ''hasOwnProperty'',
      ''__lookupGetter__'', ''__lookupSetter__'', ''isPrototypeOf'', ''propertyIsEnumerable'',
      ''toString'', ''valueOf'', ''__proto__'', ''toLocaleString'']"

definition js_index :: "(string \<times> string) list \<Rightarrow> string \<Rightarrow> js_value" where
  "js_index obj key =
     (case map_of obj key of
        Some v \<Rightarrow> JStr v
      | None \<Rightarrow> if key \<in> set object_prototype_names then JObject key else JUndefined)"

text \<open>A string between double quotes (character 34).\<close>

definition quoted :: "string \<Rightarrow> string" where
  "quoted s = [CHR 0x22] @ s @ [CHR 0x22]"

section \<open>Serving: content types and the file lookup of the download route\<close>

definition contentTypes :: "(string \<times> string) list" where
  "contentTypes =
     [(''.mp3'', ''audio/mpeg''),
      (''.m4a'', ''audio/mp4''),
      (''.webm'', ''audio/webm''),
      (''.opus'', ''audio/opus''),
      (''.aac'', ''audio/aac''),
      (''.wav'', ''audio/wav'')]"

definition getContentType :: "string \<Rightarrow> js_value" where
  "getContentType extension = js_or (js_index contentTypes extension) (JStr ''audio/mpeg'')"

fun find_loop :: "filesystem \<Rightarrow> path \<Rightarrow> string \<Rightarrow> string list \<Rightarrow> path option" where
  "find_loop fs dir videoId [] = None"
| "find_loop fs dir videoId (ext # exts) =
     (let filePath = path_join dir (videoId @ ext)
      in if fs filePath \<noteq> None then Some filePath else find_loop fs dir videoId exts)"

definition findVideoFile :: "path \<Rightarrow> filesystem \<Rightarrow> string \<Rightarrow> path option" where
  "findVideoFile cwd fs videoId =
     find_loop fs (TEMP_DIR cwd) videoId
       [''.mp3'', ''.m4a'', ''.webm'', ''.opus'', ''.aac'', ''.wav'']"

section \<open>The progress route\<close>

text \<open>
  The JSON body of \<open>GET /progress/{id}\<close>. The fields \<open>size\<close> and \<open>format\<close> of the
  source are \<open>size_bytes\<close> and \<open>fmt\<close> here; \<open>sizeInMB\<close>, a floating-point
  number formatted by \<open>toFixed(1)\<close>, is left out. A field the branch does not set is
  \<open>None\<close>. The 500 of the \<open>catch\<close> block needs a failing \<open>pathExists\<close> or
  \<open>stat\<close>, which the map of files does not have.
\<close>

record progress_info =
  exists :: bool
  ready :: bool
  size_bytes :: "nat option"
  fmt :: "string option"
  status :: "string option"

fun progress_loop :: "filesystem \<Rightarrow> path \<Rightarrow> string \<Rightarrow> string list \<Rightarrow> progress_info option" where
  "progress_loop fs dir videoId [] = None"
| "progress_loop fs dir videoId (ext # exts) =
     (let filePath = path_join dir (videoId @ ext)
      in case fs filePath of
           Some bytes \<Rightarrow>
             Some \<lparr>exists = True, ready = True, size_bytes = Some (length bytes),
                   fmt = Some (js_replace ''.'' [] ext), status = None\<rparr>
         | None \<Rightarrow> progress_loop fs dir videoId exts)"

definition progress_GET :: "path \<Rightarrow> filesystem \<Rightarrow> string \<Rightarrow> progress_info" where
  "progress_GET cwd fs videoId =
     (case progress_loop fs (TEMP_DIR cwd) videoId [''.mp3'', ''.m4a'', ''.webm'', ''.opus''] of
        Some fileInfo \<Rightarrow> fileInfo
      | None \<Rightarrow>
          \<lparr>exists = False, ready = False, size_bytes = None, fmt = None,
           status = Some ''processing''\<rparr>)"

section \<open>The server's world: files, external commands run, timers and the clock\<close>

text \<open>
  \<open>execs\<close> lists the commands handed to \<open>execAsync\<close>, oldest first. \<open>timers\<close> are
  the pending deletions that the download route scheduled with \<open>setTimeout\<close>, each with
  the clock value (in milliseconds) at which it fires.
\<close>

record world =
  files :: filesystem
  execs :: "string list"
  timers :: "(nat \<times> path) list"
  now :: nat



section \<open>The download route\<close>

text \<open>
  \<open>GET /download/{id}\<close>: the response and the world after it. \<open>Served\<close> is the
  binary response with its headers, \<open>NotFound\<close> the 404 and \<open>ServerError\<close> the 500
  of the \<open>catch\<close> block, reached when the file cannot be read. The query parameter
  \<open>format\<close> is read by the handler and never used. The deletion timer is set before the
  handler returns, so before any byte is transferred.
\<close>

record served =
  body :: "byte list"
  contentType :: js_value
  contentDisposition :: string
  contentLength :: nat
  cacheControl :: string

datatype download_response = Served served | NotFound | ServerError

definition download_GET :: "path \<Rightarrow> string \<Rightarrow> world \<Rightarrow> download_response \<times> world" where
  "download_GET cwd videoId w =
     (case findVideoFile cwd (files w) videoId of
        None \<Rightarrow> (NotFound, w)
      | Some filePath \<Rightarrow>
          (case files w filePath of
             None \<Rightarrow> (ServerError, w)
           | Some fileBuffer \<Rightarrow>
               (let ext = toLowerCase (extname filePath);
                    fileName = ''youtube-'' @ videoId @ ext;
                    response =
                      \<lparr>body = fileBuffer,
                       contentType = getContentType ext,
                       contentDisposition = ''attachment; filename='' @ quoted fileName,
                       contentLength = length fileBuffer,
                       cacheControl = ''no-cache''\<rparr>
                in (Served response,
                    w\<lparr>timers := timers w @ [(now w + 5 * 60 * 1000, filePath)]\<rparr>))))"

section \<open>The acquisition runner\<close>

text \<open>The exceptions and rejections of the program, as values.\<close>

datatype error =
    ExecFailed
  | DownloadedFileNotFound
  | DestAlreadyExists
  | SourceMissing
  | SameFile
  | CobaltFailed
  | CobaltNoURL
  | CobaltDownloadFailed
  | FetchFailed
  | JsonError
  | RangeError
  | Timeout
  | DownloadFailed
  | InputFileNotFound
  | TranscodeFailed

text \<open>
  The external programs are a parameter: given a command line that the shell accepts and the
  files, they say whether the process exited with status 0 and which files it left behind.
  The runner puts no time limit on the process; a run is followed from the point where the
  process has exited. The runner only logs the standard output, which is therefore left
  out.
\<close>

type_synonym shell = "string \<Rightarrow> filesystem \<Rightarrow> bool \<times> filesystem"

text \<open>
  \<open>exec\<close> of \<open>child_process\<close> hands the command line to \<open>/bin/sh -c\<close>, and the shell
  parses a line before it runs anything of it. A plain character is a letter, a digit or one
  of \<open>- . / _\<close>; a plain word has no meaning to the shell beyond itself. A line that
  begins with two or more plain words, the first of them no reserved word, and whose first
  other character is an unquoted opening parenthesis, is a syntax error: in a simple
  command a parenthesis is no argument, and it could open a function definition only after
  the first word. The shell then exits with status 2 and starts no process.
\<close>

definition plain_char :: "char \<Rightarrow> bool" where
  "plain_char c =
     (c \<in> set ''abcdefghijklmnopqrstuvwxyzABCDEFGHIJKLMNOPQRSTUVWXYZ0123456789-./_'')"

fun count_words :: "bool \<Rightarrow> string \<Rightarrow> nat" where
  "count_words in_word [] = 0"
| "count_words in_word (c # cs) =
     (if c = CHR '' '' then count_words False cs
      else (if in_word then 0 else 1) + count_words True cs)"

definition reserved_words :: "string list" where
  "reserved_words =
     [''case'', ''do'', ''done'', ''elif'', ''else'', ''esac'', ''fi'', ''for'', ''if'', ''in'',
      ''then'', ''until'', ''while'', ''function'', ''select'', ''time'', ''coproc'']"

definition sh_syntax_error :: "string \<Rightarrow> bool" where
  "sh_syntax_error command =
     (let head = takeWhile (\<lambda>c. plain_char c \<or> c = CHR '' '') command;
          rest = dropWhile (\<lambda>c. plain_char c \<or> c = CHR '' '') command;
          first_word = takeWhile (\<lambda>c. c \<noteq> CHR '' '') (dropWhile (\<lambda>c. c = CHR '' '') head)
      in case rest of
           [] \<Rightarrow> False
         | c # cs \<Rightarrow>
             c = CHR ''('' \<and> 2 \<le> count_words False head \<and> first_word \<notin> set reserved_words)"

definition run_shell :: "shell \<Rightarrow> string \<Rightarrow> filesystem \<Rightarrow> bool \<times> filesystem" where
  "run_shell sh command fs = (if sh_syntax_error command then (False, fs) else sh command fs)"

text \<open>\<open>execAsync\<close>, the promisified \<open>exec\<close>, rejects on a non-zero status.\<close>

definition execAsync :: "shell \<Rightarrow> string \<Rightarrow> world \<Rightarrow> (error + unit) \<times> world" where
  "execAsync sh command w =
     (let (ok, fs') = run_shell sh command (files w);
          w' = w\<lparr>files := fs', execs := execs w @ [command]\<rparr>
      in (if ok then Inr () else Inl ExecFailed, w'))"

text \<open>
  \<open>fs.move(src, dest)\<close> of fs-extra with its default options (\<open>overwrite: false\<close>): it
  rejects when the source is missing, when both paths are the same file, and when the
  destination exists.
\<close>

definition fs_move :: "path \<Rightarrow> path \<Rightarrow> world \<Rightarrow> (error + unit) \<times> world" where
  "fs_move src dest w =
     (case files w src of
        None \<Rightarrow> (Inl SourceMissing, w)
      | Some bytes \<Rightarrow>
          if src = dest then (Inl SameFile, w)
          else if files w dest \<noteq> None then (Inl DestAlreadyExists, w)
          else (Inr (), w\<lparr>files := (files w)(src := None, dest := Some bytes)\<rparr>))"

text \<open>\<open>fs.writeFile\<close>: the write itself is taken to succeed.\<close>

definition fs_writeFile :: "path \<Rightarrow> byte list \<Rightarrow> world \<Rightarrow> world" where
  "fs_writeFile p bytes w = w\<lparr>files := (files w)(p := Some bytes)\<rparr>"

text \<open>What a strategy resolves with: \<open>{ filePath, format, quality }\<close>.\<close>

record download_result =
  filePath :: path
  format :: string
  quality :: string

text \<open>\<open>Array.prototype.join(" ")\<close>, which builds the command lines.\<close>

definition join_words :: "string list \<Rightarrow> string" where
  "join_words ws = (case ws of [] \<Rightarrow> [] | x # xs \<Rightarrow> foldl (\<lambda>acc y. acc @ '' '' @ y) x xs)"

text \<open>
  Strategy 1. \<open>findAndRenameOutputFile\<close> walks \<open>possibleFiles\<close> and moves the first
  file that exists to the output path; \<open>rename_loop\<close> is its \<open>for\<close> loop.
\<close>

fun rename_loop :: "path \<Rightarrow> path list \<Rightarrow> world \<Rightarrow> (error + unit) \<times> world" where
  "rename_loop outputPath [] w = (Inl DownloadedFileNotFound, w)"
| "rename_loop outputPath (file # rest) w =
     (if files w file \<noteq> None then
        (if file \<noteq> outputPath then fs_move file outputPath w else (Inr (), w))
      else rename_loop outputPath rest w)"

definition possibleFiles :: "path \<Rightarrow> path list" where
  "possibleFiles outputPath =
     [outputPath,
      js_replace ''.mp3'' ''.m4a'' outputPath,
      js_replace ''.mp3'' ''.webm'' outputPath,
      js_replace ''.mp3'' ''.opus'' outputPath]"

definition findAndRenameOutputFile :: "path \<Rightarrow> world \<Rightarrow> (error + unit) \<times> world" where
  "findAndRenameOutputFile outputPath w = rename_loop outputPath (possibleFiles outputPath) w"

definition superFastCommand :: "path \<Rightarrow> string \<Rightarrow> string" where
  "superFastCommand outputPath url =
     join_words
       [''yt-dlp'', ''--extract-audio'', ''--audio-format'', ''mp3'', ''--audio-quality'', ''5'',
        ''--no-warnings'', ''--no-playlist'', ''--concurrent-fragments'', ''4'',
        ''--throttled-rate'', ''100K'', ''--no-check-certificates'', ''--user-agent'',
        ''Mozilla/5.0 (Windows NT 10.0; Win64; x64) AppleWebKit/537.36'',
        ''-o'', quoted (js_replace ''.mp3'' ''.%(ext)s'' outputPath), quoted url]"

definition superFastDownloadWithFFmpeg ::
  "shell \<Rightarrow> path \<Rightarrow> string \<Rightarrow> string \<Rightarrow> world \<Rightarrow> (error + download_result) \<times> world" where
  "superFastDownloadWithFFmpeg sh cwd url videoId w =
     (let outputPath = path_join (TEMP_DIR cwd) (videoId @ ''.mp3'');
          command = superFastCommand outputPath url
      in case execAsync sh command w of
           (Inl e, w1) \<Rightarrow> (Inl e, w1)
         | (Inr _, w1) \<Rightarrow>
             (case findAndRenameOutputFile outputPath w1 of
                (Inl e, w2) \<Rightarrow> (Inl e, w2)
              | (Inr _, w2) \<Rightarrow>
                  (Inr \<lparr>filePath = outputPath, format = ''mp3'',
                        quality = ''192kbps MP3 (Fast)''\<rparr>, w2)))"

text \<open>
  Strategy 2. \<open>findActualDownloadedFile\<close> walks its extensions and moves the first
  \<open>{id}_temp{ext}\<close> that exists to \<open>{id}{ext}\<close>; \<open>actual_loop\<close> is its \<open>for\<close>
  loop, and \<open>Inr None\<close> its \<open>null\<close>.
\<close>

record downloaded_file =
  path :: path
  extension :: string

fun actual_loop ::
  "path \<Rightarrow> string \<Rightarrow> string list \<Rightarrow> world \<Rightarrow> (error + downloaded_file option) \<times> world" where
  "actual_loop tempDir videoId [] w = (Inr None, w)"
| "actual_loop tempDir videoId (ext # exts) w =
     (let testPath = path_join tempDir (videoId @ ''_temp'' @ ext)
      in if files w testPath \<noteq> None then
           (let finalPath = path_join tempDir (videoId @ ext)
            in case fs_move testPath finalPath w of
                 (Inl e, w') \<Rightarrow> (Inl e, w')
               | (Inr _, w') \<Rightarrow> (Inr (Some \<lparr>path = finalPath, extension = ext\<rparr>), w'))
         else actual_loop tempDir videoId exts w)"

definition findActualDownloadedFile ::
  "path \<Rightarrow> string \<Rightarrow> world \<Rightarrow> (error + downloaded_file option) \<times> world" where
  "findActualDownloadedFile cwd videoId w =
     actual_loop (TEMP_DIR cwd) videoId [''.m4a'', ''.webm'', ''.mp3'', ''.opus''] w"

definition upper_char :: "char \<Rightarrow> char" where
  "upper_char c =
     (let n = (of_char c :: nat) in if 97 \<le> n \<and> n \<le> 122 then char_of (n - 32) else c)"

definition toUpperCase :: "string \<Rightarrow> string" where
  "toUpperCase s = map upper_char s"

definition fastOriginalCommand :: "path \<Rightarrow> string \<Rightarrow> string \<Rightarrow> string" where
  "fastOriginalCommand cwd videoId url =
     join_words
       [''yt-dlp'', ''-f'', ''worstaudio[ext=m4a]/worstaudio'', ''--no-warnings'',
        ''--no-playlist'', ''--concurrent-fragments'', ''4'', ''--throttled-rate'', ''100K'',
        ''--no-check-certificates'', ''-o'',
        quoted (TEMP_DIR cwd @ ''/'' @ videoId @ ''_temp.%(ext)s''), quoted url]"

definition fastDownloadOriginal ::
  "shell \<Rightarrow> path \<Rightarrow> string \<Rightarrow> string \<Rightarrow> world \<Rightarrow> (error + download_result) \<times> world" where
  "fastDownloadOriginal sh cwd url videoId w =
     (case execAsync sh (fastOriginalCommand cwd videoId url) w of
        (Inl e, w1) \<Rightarrow> (Inl e, w1)
      | (Inr _, w1) \<Rightarrow>
          (case findActualDownloadedFile cwd videoId w1 of
             (Inl e, w2) \<Rightarrow> (Inl e, w2)
           | (Inr None, w2) \<Rightarrow> (Inl DownloadedFileNotFound, w2)
           | (Inr (Some downloadedFile), w2) \<Rightarrow>
               (Inr \<lparr>filePath = path downloadedFile,
                     format = js_replace ''.'' [] (extension downloadedFile),
                     quality = ''Fast '' @ toUpperCase (extension downloadedFile)\<rparr>, w2)))"

section \<open>The placeholder audio: a WAV file built in memory\<close>

text \<open>
  The \<open>DataView\<close> setters, little-endian as the program calls them. A write that does not
  fit the buffer raises a \<open>RangeError\<close>, which is \<open>None\<close> here. The value is reduced
  modulo the width of the field.
\<close>

definition setUint8 :: "nat \<Rightarrow> nat \<Rightarrow> byte list \<Rightarrow> byte list option" where
  "setUint8 offset v buf =
     (if offset + 1 \<le> length buf then Some (buf[offset := of_nat v]) else None)"

definition put16 :: "nat \<Rightarrow> 16 word \<Rightarrow> byte list \<Rightarrow> byte list option" where
  "put16 offset x buf =
     (if offset + 2 \<le> length buf
      then Some (buf[offset := ucast x, offset + 1 := ucast (drop_bit 8 x)])
      else None)"

definition setUint16 :: "nat \<Rightarrow> nat \<Rightarrow> byte list \<Rightarrow> byte list option" where
  "setUint16 offset v buf = put16 offset (of_nat v) buf"

definition setInt16 :: "nat \<Rightarrow> int \<Rightarrow> byte list \<Rightarrow> byte list option" where
  "setInt16 offset v buf = put16 offset (word_of_int v) buf"

definition setUint32 :: "nat \<Rightarrow> nat \<Rightarrow> byte list \<Rightarrow> byte list option" where
  "setUint32 offset v buf =
     (let x = (of_nat v :: 32 word)
      in if offset + 4 \<le> length buf
         then Some (buf[offset := ucast x,
                        offset + 1 := ucast (drop_bit 8 x),
                        offset + 2 := ucast (drop_bit 16 x),
                        offset + 3 := ucast (drop_bit 24 x)])
         else None)"

text \<open>The inner function \<open>writeString\<close> of \<open>createWavHeader\<close>: one byte per character.\<close>

fun writeString :: "nat \<Rightarrow> string \<Rightarrow> byte list \<Rightarrow> byte list option" where
  "writeString offset [] buf = Some buf"
| "writeString offset (c # cs) buf =
     (case setUint8 offset (of_char c) buf of
        None \<Rightarrow> None
      | Some buf' \<Rightarrow> writeString (offset + 1) cs buf')"

definition createWavHeader :: "nat \<Rightarrow> nat \<Rightarrow> byte list option" where
  "createWavHeader samples sampleRate =
     Option.bind (Option.bind (Option.bind (Option.bind (Option.bind (Option.bind (Option.bind
     (Option.bind (Option.bind (Option.bind (Option.bind (Option.bind
       (writeString 0 ''RIFF'' (replicate 44 0))
       (setUint32 4 (36 + samples * 2)))
       (writeString 8 ''WAVE''))
       (writeString 12 ''fmt ''))
       (setUint32 16 16))
       (setUint16 20 1))
       (setUint16 22 1))
       (setUint32 24 sampleRate))
       (setUint32 28 (sampleRate * 2)))
       (setUint16 32 2))
       (setUint16 34 16))
       (writeString 36 ''data''))
       (setUint32 40 (samples * 2))"

text \<open>
  The sample computation \<open>Math.sin((2 * Math.PI * 440 * i) / sampleRate) * 0.3\<close> is
  floating point. The integer that \<open>Math.floor(sample * 32767)\<close> yields for sample \<open>i\<close>
  is the parameter \<open>floored\<close>; the clamp and the write are the program's.
\<close>

definition intSample :: "(nat \<Rightarrow> int) \<Rightarrow> nat \<Rightarrow> int" where
  "intSample floored i = max (- 32768) (min 32767 (floored i))"

function sample_loop :: "(nat \<Rightarrow> int) \<Rightarrow> nat \<Rightarrow> nat \<Rightarrow> byte list \<Rightarrow> byte list option" where
  "sample_loop floored i samples buf =
     (if i < samples then
        (case setInt16 (i * 2) (intSample floored i) buf of
           None \<Rightarrow> None
         | Some buf' \<Rightarrow> sample_loop floored (i + 1) samples buf')
      else Some buf)"
  by pat_completeness auto
termination
  by (relation "measure (\<lambda>(floored, i, samples, buf). samples - i)") auto

declare sample_loop.simps [simp del]

text \<open>\<open>TypedArray.prototype.set(source, offset)\<close>: a \<open>RangeError\<close> when the source does not fit.\<close>

definition typed_set :: "byte list \<Rightarrow> nat \<Rightarrow> byte list \<Rightarrow> byte list option" where
  "typed_set source offset target =
     (if offset + length source \<le> length target
      then Some (take offset target @ source @ drop (offset + length source) target)
      else None)"

text \<open>The bytes that \<open>createFastDemo\<close> hands to \<open>fs.writeFile\<close>.\<close>

definition demo_bytes :: "(nat \<Rightarrow> int) \<Rightarrow> nat \<Rightarrow> nat \<Rightarrow> byte list option" where
  "demo_bytes floored sampleRate duration =
     (let samples = sampleRate * duration
      in case sample_loop floored 0 samples (replicate (samples * 2) 0) of
           None \<Rightarrow> None
         | Some buffer \<Rightarrow>
             (case createWavHeader samples sampleRate of
                None \<Rightarrow> None
              | Some wavHeader \<Rightarrow>
                  Option.bind
                    (typed_set wavHeader 0 (replicate (length wavHeader + length buffer) 0))
                    (typed_set buffer (length wavHeader))))"

definition createFastDemo :: "(nat \<Rightarrow> int) \<Rightarrow> path \<Rightarrow> world \<Rightarrow> (error + unit) \<times> world" where
  "createFastDemo floored outputPath w =
     (case demo_bytes floored 22050 10 of
        None \<Rightarrow> (Inl RangeError, w)
      | Some wavBuffer \<Rightarrow> (Inr (), fs_writeFile outputPath wavBuffer w))"

text \<open>Reading the file back: an unsigned 32-bit and a signed 16-bit little-endian field.\<close>

definition u32_at :: "byte list \<Rightarrow> nat \<Rightarrow> nat" where
  "u32_at bs offset =
     unat (bs ! offset) + 256 * unat (bs ! (offset + 1)) + 65536 * unat (bs ! (offset + 2))
       + 16777216 * unat (bs ! (offset + 3))"

definition s16_at :: "byte list \<Rightarrow> nat \<Rightarrow> int" where
  "s16_at bs offset = sint (word_cat (bs ! (offset + 1)) (bs ! offset) :: 16 word)"

section \<open>Strategy 3: the online service and the race\<close>

text \<open>
  A promise that settles: after how many milliseconds, and rejected (\<open>Inl\<close>) or fulfilled
  (\<open>Inr\<close>). \<open>fetch\<close> settles on its own (its transport gives up after a fixed time), so a
  request is such a pair. A \<open>Response\<close> carries its \<open>ok\<close> flag and its body.
\<close>

type_synonym 'a settled = "nat \<times> (error + 'a)"

datatype 'a response = Response bool 'a

text \<open>
  The JSON that the conversion service answers with: the two properties the program reads.
  A body that is not JSON makes \<open>response.json()\<close> reject; it is \<open>None\<close>.
\<close>

record cobalt_json =
  cobalt_status :: js_value
  cobalt_url :: js_value

record network =
  post_cobalt :: "string \<Rightarrow> cobalt_json option response settled"
  get_audio :: "string \<Rightarrow> byte list response settled"

text \<open>\<open>fetch(x)\<close> for the value of \<open>result.url\<close>: only a string is a URL that can be fetched.\<close>

definition fetch_value :: "network \<Rightarrow> js_value \<Rightarrow> byte list response settled" where
  "fetch_value net v = (case v of JStr u \<Rightarrow> get_audio net u | _ \<Rightarrow> (0, Inl FetchFailed))"

definition cobaltDownload :: "network \<Rightarrow> string \<Rightarrow> byte list settled" where
  "cobaltDownload net url =
     (case post_cobalt net url of
        (t1, Inl e) \<Rightarrow> (t1, Inl e)
      | (t1, Inr (Response ok parsed)) \<Rightarrow>
          if \<not> ok then (t1, Inl CobaltFailed)
          else (case parsed of
                  None \<Rightarrow> (t1, Inl JsonError)
                | Some result \<Rightarrow>
                    if cobalt_status result \<noteq> JStr ''success'' \<or> \<not> truthy (cobalt_url result)
                    then (t1, Inl CobaltNoURL)
                    else (case fetch_value net (cobalt_url result) of
                            (t2, Inl e) \<Rightarrow> (t1 + t2, Inl e)
                          | (t2, Inr (Response ok2 bytes)) \<Rightarrow>
                              if \<not> ok2 then (t1 + t2, Inl CobaltDownloadFailed)
                              else (t1 + t2, Inr bytes))))"

text \<open>
  \<open>Promise.race\<close>: the promise that settles first decides, fulfilled or rejected; among
  promises settling at the same time the earlier one in the array. The race of no promise
  never settles (\<open>None\<close>).
\<close>

fun earliest :: "'a settled \<Rightarrow> 'a settled list \<Rightarrow> 'a settled" where
  "earliest p [] = p"
| "earliest p (q # qs) = earliest (if fst q < fst p then q else p) qs"

definition promise_race :: "'a settled list \<Rightarrow> 'a settled option" where
  "promise_race ps = (case ps of [] \<Rightarrow> None | p # qs \<Rightarrow> Some (earliest p qs))"

definition onlineDownload ::
  "network \<Rightarrow> (nat \<Rightarrow> int) \<Rightarrow> path \<Rightarrow> string \<Rightarrow> string \<Rightarrow> world
     \<Rightarrow> ((error + download_result) \<times> world) option" where
  "onlineDownload net floored cwd url videoId w =
     (let outputPath = path_join (TEMP_DIR cwd) (videoId @ ''.mp3'');
          services = [cobaltDownload net url]
      in case promise_race services of
           None \<Rightarrow> None
         | Some (t, Inr result) \<Rightarrow>
             Some (Inr \<lparr>filePath = outputPath, format = ''mp3'', quality = ''Online Service''\<rparr>,
                   fs_writeFile outputPath result w)
         | Some (t, Inl e) \<Rightarrow>
             (case createFastDemo floored outputPath w of
                (Inl e', w') \<Rightarrow> Some (Inl e', w')
              | (Inr _, w') \<Rightarrow>
                  Some (Inr \<lparr>filePath = outputPath, format = ''mp3'', quality = ''Demo''\<rparr>, w')))"

text \<open>
  The race as the specification words it, for comparison with \<open>promise_race\<close>:
  "first-success-wins semantics (cancel/ignore the losers)". The fulfilled promise that
  settles first decides; when every promise rejects, the rejection that settles last does.
\<close>

fun latest :: "'a settled \<Rightarrow> 'a settled list \<Rightarrow> 'a settled" where
  "latest p [] = p"
| "latest p (q # qs) = latest (if fst p < fst q then q else p) qs"

definition first_success_wins :: "'a settled list \<Rightarrow> 'a settled option" where
  "first_success_wins ps =
     (case filter (\<lambda>p. case snd p of Inr v \<Rightarrow> True | Inl e \<Rightarrow> False) ps of
        s # ss \<Rightarrow> Some (earliest s ss)
      | [] \<Rightarrow> (case ps of [] \<Rightarrow> None | p # qs \<Rightarrow> Some (latest p qs)))"

section \<open>Capability probes and strategy selection\<close>

record environment =
  type :: string
  hasYtDlp :: bool
  hasFFmpeg :: bool

text \<open>
  A promise that may never settle. A probe is the promise of \<open>execAsync\<close> on a version
  command: fulfilled when the tool answers with status 0, rejected when the tool is absent
  or fails, pending for ever when the process hangs.
\<close>

datatype 'a promise = Pending | Settled nat "error + 'a"

text \<open>
  \<open>Promise.allSettled\<close> waits for every promise, fulfilled or rejected: the time at which
  the last one settles, or \<open>None\<close> when one never does. Its array of outcomes, which the
  program binds to \<open>checks\<close> and never reads, is left out.
\<close>

fun promise_allSettled :: "'a promise list \<Rightarrow> nat option" where
  "promise_allSettled [] = Some 0"
| "promise_allSettled (Pending # ps) = None"
| "promise_allSettled (Settled t r # ps) = map_option (max t) (promise_allSettled ps)"

definition fulfilled :: "'a promise \<Rightarrow> bool" where
  "fulfilled p = (case p of Settled t (Inr v) \<Rightarrow> True | _ \<Rightarrow> False)"

text \<open>
  \<open>quickEnvironmentCheck\<close> returns the environment and the time it took, or never
  returns (\<open>None\<close>).
\<close>

definition quickEnvironmentCheck :: "(string \<Rightarrow> unit promise) \<Rightarrow> (nat \<times> environment) option" where
  "quickEnvironmentCheck run =
     (let ytdlp = run ''yt-dlp --version'';
          ffmpeg = run ''ffmpeg -version''
      in case promise_allSettled [ytdlp, ffmpeg] of
           None \<Rightarrow> None
         | Some t \<Rightarrow>
             (let y = fulfilled ytdlp;
                  f = fulfilled ffmpeg
              in Some (t, \<lparr>type = (if y \<and> f then ''full''
                                     else if y then ''ytdlp-only''
                                     else ''online''),
                           hasYtDlp = y, hasFFmpeg = f\<rparr>)))"

text \<open>
  The selection. \<open>None\<close> stands for a run that never settles, which only a race without
  promises could be.
\<close>

definition fastDownloadAudio ::
  "shell \<Rightarrow> network \<Rightarrow> (nat \<Rightarrow> int) \<Rightarrow> path \<Rightarrow> string \<Rightarrow> string \<Rightarrow> environment \<Rightarrow> world
     \<Rightarrow> ((error + download_result) \<times> world) option" where
  "fastDownloadAudio sh net floored cwd url videoId env w =
     (if hasYtDlp env \<and> hasFFmpeg env then Some (superFastDownloadWithFFmpeg sh cwd url videoId w)
      else if hasYtDlp env then Some (fastDownloadOriginal sh cwd url videoId w)
      else onlineDownload net floored cwd url videoId w)"

section \<open>The metadata cache\<close>

text \<open>
  \<open>video_info\<close> is the object with the properties \<open>title\<close>, \<open>thumbnail\<close> and
  \<open>duration\<close>: the parsed output of the download tool as well as the entry that the
  program builds from it. A property that is absent is \<open>JUndefined\<close>.
\<close>

record video_info =
  title :: js_value
  thumbnail :: js_value
  duration :: js_value

text \<open>
  The module state: the map \<open>videoInfoCache\<close>, the pending \<open>setTimeout\<close> evictions with
  their deadlines, and the clock. \<open>lookups\<close> records every call of an underlying source
  (the command line or the URL), oldest first.
\<close>

record cache_state =
  videoInfoCache :: "string \<Rightarrow> video_info option"
  evictions :: "(nat \<times> string) list"
  clock :: nat
  lookups :: "string list"

text \<open>Time passes by \<open>d\<close> milliseconds: every eviction that is due deletes its key.\<close>

definition pass :: "nat \<Rightarrow> cache_state \<Rightarrow> cache_state" where
  "pass d s =
     (let t = clock s + d;
          due = filter (\<lambda>(deadline, k). deadline \<le> t) (evictions s)
      in s\<lparr>videoInfoCache := fold (\<lambda>(deadline, k) m. m(k := None)) due (videoInfoCache s),
            evictions := filter (\<lambda>(deadline, k). \<not> deadline \<le> t) (evictions s),
            clock := t\<rparr>)"

text \<open>
  The two sources, as they answer a call made at a given time. The download tool is a
  process and may hang; its standard output is \<open>None\<close> when \<open>JSON.parse\<close> throws on it.
  The embed endpoint is a \<open>fetch\<close>; its body is the \<open>title\<close> property of the JSON, or
  \<open>None\<close> when the body is not JSON.
\<close>

record sources =
  ytdlp_dump :: "string \<Rightarrow> nat \<Rightarrow> video_info option promise"
  oembed_fetch :: "string \<Rightarrow> nat \<Rightarrow> js_value option response settled"

text \<open>
  \<open>Promise.race([p, new Promise((_, reject) => setTimeout(() => reject(...), ms))])\<close>: the
  promise decides when it settles before the timer, the timer rejects otherwise.
\<close>

definition with_timeout :: "nat \<Rightarrow> 'a promise \<Rightarrow> 'a settled" where
  "with_timeout ms p =
     (case p of
        Pending \<Rightarrow> (ms, Inl Timeout)
      | Settled t r \<Rightarrow> if t < ms then (t, r) else (ms, Inl Timeout))"

definition default_thumbnail :: "string \<Rightarrow> string" where
  "default_thumbnail videoId = ''https://img.youtube.com/vi/'' @ videoId @ ''/maxresdefault.jpg''"

definition dump_command :: "string \<Rightarrow> string" where
  "dump_command url = ''yt-dlp --dump-json --no-warnings --no-playlist '' @ quoted url"

definition oembed_url :: "string \<Rightarrow> string" where
  "oembed_url videoId =
     ''https://www.youtube.com/oembed?url=https://www.youtube.com/watch?v='' @ videoId
       @ ''&format=json''"

text \<open>
  \<open>getCachedVideoInfo\<close> runs in three stretches. It tests the cache; on a miss it awaits
  the sources, and while it waits the server handles other requests and timers; when it
  resumes it stores what it resolved and sets the eviction timer. Between the test and the
  store it reads nothing of the module state. What the sources resolve, and after how long,
  is therefore a function of the time at which the lookup begins.
\<close>

text \<open>Fast method 1: the download tool, under a timeout of five seconds.\<close>

definition ytdlp_info :: "sources \<Rightarrow> string \<Rightarrow> string \<Rightarrow> nat \<Rightarrow> nat \<times> video_info option" where
  "ytdlp_info src url videoId t0 =
     (let (t, r) = with_timeout 5000 (ytdlp_dump src (dump_command url) t0)
      in case r of
           Inr (Some info) \<Rightarrow>
             (t, Some \<lparr>title = js_or (title info) (JStr ''Unknown Title''),
                       thumbnail = js_or (thumbnail info) (JStr (default_thumbnail videoId)),
                       duration = js_or (duration info) (JNum 180)\<rparr>)
         | _ \<Rightarrow> (t, None))"

text \<open>
  Fast method 2: the embed endpoint, under a timeout of three seconds. A rejection is not
  caught here and ends the whole lookup (\<open>Inl\<close>).
\<close>

definition oembed_info :: "sources \<Rightarrow> string \<Rightarrow> nat \<Rightarrow> nat \<times> (error + video_info option)" where
  "oembed_info src videoId t0 =
     (let (t, r) = with_timeout 3000
                     (case oembed_fetch src (oembed_url videoId) t0 of
                        (t', r') \<Rightarrow> Settled t' r')
      in case r of
           Inl e \<Rightarrow> (t, Inl e)
         | Inr (Response ok parsed) \<Rightarrow>
             if ok then
               (case parsed of
                  None \<Rightarrow> (t, Inl JsonError)
                | Some data_title \<Rightarrow>
                    (t, Inr (Some \<lparr>title = js_or data_title (JStr ''Unknown Title''),
                                   thumbnail = JStr (default_thumbnail videoId),
                                   duration = JNum 180\<rparr>)))
             else (t, Inr None))"

text \<open>
  The awaited stretch of a lookup that begins at time \<open>t0\<close>: how long it takes, the value
  of \<open>videoInfo\<close> with which the lookup resumes (\<open>None\<close> is \<open>null\<close>, also when the outer
  \<open>catch\<close> returns it), and the sources it called.
\<close>

definition resolve ::
  "sources \<Rightarrow> string \<Rightarrow> string \<Rightarrow> environment \<Rightarrow> nat \<Rightarrow> nat \<times> video_info option \<times> string list" where
  "resolve src url videoId env t0 =
     (let (t1, videoInfo, calls) =
            (if hasYtDlp env
             then (case ytdlp_info src url videoId t0 of (t, r) \<Rightarrow> (t, r, [dump_command url]))
             else (0, None, []))
      in case videoInfo of
           Some v \<Rightarrow> (t1, Some v, calls)
         | None \<Rightarrow>
             (case oembed_info src videoId (t0 + t1) of
                (t2, Inl e) \<Rightarrow> (t1 + t2, None, calls @ [oembed_url videoId])
              | (t2, Inr found) \<Rightarrow> (t1 + t2, found, calls @ [oembed_url videoId])))"

text \<open>
  The first stretch: the cache test. \<open>Hit\<close> returns the entry at once. \<open>Miss d r\<close> is a
  lookup in flight that resumes after \<open>d\<close> milliseconds with \<open>r\<close>; the calls of the
  sources are logged as the lookup begins.
\<close>

datatype lookup = Hit video_info | Miss nat "video_info option"

definition lookup_begin ::
  "sources \<Rightarrow> string \<Rightarrow> string \<Rightarrow> environment \<Rightarrow> cache_state \<Rightarrow> lookup \<times> cache_state" where
  "lookup_begin src url videoId env s =
     (case videoInfoCache s videoId of
        Some cached \<Rightarrow> (Hit cached, s)
      | None \<Rightarrow>
          (case resolve src url videoId env (clock s) of
             (d, r, calls) \<Rightarrow> (Miss d r, s\<lparr>lookups := lookups s @ calls\<rparr>)))"

text \<open>
  The last stretch, "Cache the result", on the state as it is when the lookup resumes: only
  a result that is not \<open>null\<close> is stored, with its eviction timer. The result is what the
  call returns.
\<close>

definition cache_result ::
  "string \<Rightarrow> video_info option \<Rightarrow> cache_state \<Rightarrow> video_info option \<times> cache_state" where
  "cache_result videoId videoInfo s =
     (case videoInfo of
        None \<Rightarrow> (None, s)
      | Some v \<Rightarrow>
          (Some v,
           s\<lparr>videoInfoCache := (videoInfoCache s)(videoId := Some v),
             evictions := evictions s @ [(clock s + 60 * 60 * 1000, videoId)]\<rparr>))"

text \<open>A call of \<open>getCachedVideoInfo\<close> during whose awaits nothing happens but time passing.\<close>

definition getCachedVideoInfo ::
  "sources \<Rightarrow> string \<Rightarrow> string \<Rightarrow> environment \<Rightarrow> cache_state
     \<Rightarrow> video_info option \<times> cache_state" where
  "getCachedVideoInfo src url videoId env s =
     (case lookup_begin src url videoId env s of
        (Hit cached, s') \<Rightarrow> (Some cached, s')
      | (Miss d r, s') \<Rightarrow> cache_result videoId r (pass d s'))"

text \<open>
  What the server may do to the cache without a store for the identifier \<open>k\<close>: time
  passes, lookups of any identifier begin, and lookups of other identifiers resume and
  store.
\<close>

inductive undisturbed :: "string \<Rightarrow> cache_state \<Rightarrow> cache_state \<Rightarrow> bool"
  for k :: string and s :: cache_state where
  same: "undisturbed k s s"
| waits: "undisturbed k s s' \<Longrightarrow> undisturbed k s (pass d s')"
| begins: "undisturbed k s s' \<Longrightarrow> undisturbed k s (snd (lookup_begin src url j env s'))"
| stores: "undisturbed k s s' \<Longrightarrow> j \<noteq> k \<Longrightarrow> undisturbed k s (snd (cache_result j r s'))"

section \<open>The converter class of the library\<close>

text \<open>
  \<open>YouTubeConverter\<close> of \<open>lib/youtube-converter.ts\<close>, the second place where the
  repository downloads and converts. No route uses it. The download and the transcoding are
  external: given their arguments and the files, each says whether it succeeded and which
  files it left. The options \<open>quality\<close> and \<open>format\<close> of the source are
  \<open>opt_quality\<close> and \<open>opt_format\<close> here.
\<close>

record conversion_options =
  opt_quality :: string
  opt_format :: string

type_synonym downloader = "string \<Rightarrow> string \<Rightarrow> conversion_options \<Rightarrow> filesystem \<Rightarrow> bool \<times> filesystem"
type_synonym transcoder = "path \<Rightarrow> path \<Rightarrow> conversion_options \<Rightarrow> filesystem \<Rightarrow> bool \<times> filesystem"

fun cleanup :: "path list \<Rightarrow> filesystem \<Rightarrow> filesystem" where
  "cleanup [] fs = fs"
| "cleanup (file # rest) fs =
     cleanup rest (if fs file \<noteq> None then fs(file := None) else fs)"

definition downloadAudio ::
  "downloader \<Rightarrow> string \<Rightarrow> path \<Rightarrow> conversion_options \<Rightarrow> filesystem \<Rightarrow> bool \<times> filesystem" where
  "downloadAudio dl url outputPath options fs = dl url (outputPath @ ''.%(ext)s'') options fs"

fun input_loop :: "filesystem \<Rightarrow> path \<Rightarrow> string list \<Rightarrow> path" where
  "input_loop fs inputPath [] = []"
| "input_loop fs inputPath (ext # exts) =
     (let testPath = inputPath @ ext
      in if fs testPath \<noteq> None then testPath else input_loop fs inputPath exts)"

definition convertWithFFmpeg ::
  "transcoder \<Rightarrow> path \<Rightarrow> path \<Rightarrow> conversion_options \<Rightarrow> filesystem
     \<Rightarrow> (error + unit) \<times> filesystem" where
  "convertWithFFmpeg ff inputPath outputPath options fs =
     (let actualInputPath = input_loop fs inputPath [''.m4a'', ''.webm'', ''.mp4'', ''.mp3'']
      in if actualInputPath = [] then (Inl InputFileNotFound, fs)
         else (case ff actualInputPath outputPath options fs of
                 (True, fs') \<Rightarrow> (Inr (), cleanup [actualInputPath] fs')
               | (False, fs') \<Rightarrow> (Inl TranscodeFailed, fs')))"

definition convertToAudio ::
  "downloader \<Rightarrow> transcoder \<Rightarrow> path \<Rightarrow> string \<Rightarrow> string \<Rightarrow> conversion_options \<Rightarrow> filesystem
     \<Rightarrow> (error + path) \<times> filesystem" where
  "convertToAudio dl ff tempDir url videoId options fs =
     (let tempVideoPath = path_join tempDir (videoId @ ''_temp'');
          outputPath = path_join tempDir (videoId @ ''.'' @ opt_format options)
      in case downloadAudio dl url tempVideoPath options fs of
           (False, fs1) \<Rightarrow> (Inl DownloadFailed, cleanup [tempVideoPath, outputPath] fs1)
         | (True, fs1) \<Rightarrow>
             if opt_format options \<noteq> ''mp3'' \<or> opt_quality options \<noteq> ''320'' then
               (case convertWithFFmpeg ff tempVideoPath outputPath options fs1 of
                  (Inl e, fs2) \<Rightarrow> (Inl e, cleanup [tempVideoPath, outputPath] fs2)
                | (Inr u, fs2) \<Rightarrow> (Inr outputPath, fs2))
             else (Inr outputPath, fs1))"

section \<open>Cached keys and pending evictions\<close>

text \<open>The deadlines of the evictions that are pending for a key, oldest timer first.\<close>

definition pending :: "string \<Rightarrow> cache_state \<Rightarrow> nat list" where
  "pending k s = map fst (filter (\<lambda>(deadline, j). j = k) (evictions s))"

text \<open>
  No timer is overdue: every eviction that was due has fired. The empty cache is so, and
  every step of the server keeps it so.
\<close>

definition timely :: "cache_state \<Rightarrow> bool" where
  "timely s \<longleftrightarrow> list_all (\<lambda>(deadline, k). clock s < deadline) (evictions s)"

text \<open>
  The state of the cache is in order when no key has two evictions pending and every key
  with a pending eviction is cached. Calls that do not overlap keep it so.
\<close>

definition cache_ok :: "cache_state \<Rightarrow> bool" where
  "cache_ok s \<longleftrightarrow> distinct (map snd (evictions s))
                 \<and> (\<forall>k \<in> snd ` set (evictions s). videoInfoCache s k \<noteq> None)"

section \<open>Example inputs\<close>

text \<open>An empty temp directory, a server that has just started, and a silent oscillator.\<close>

definition no_files :: filesystem where
  "no_files p = None"

definition fresh_world :: world where
  "fresh_world = \<lparr>files = no_files, execs = [], timers = [], now = 0\<rparr>"

definition silence :: "nat \<Rightarrow> int" where
  "silence i = 0"

text \<open>A temp directory that holds the single file \<open>abc.wav\<close>, and a server over it.\<close>

definition wav_only :: filesystem where
  "wav_only p = (if p = ''/app/temp/abc.wav'' then Some [82, 73, 70, 70] else None)"

definition wav_world :: world where
  "wav_world = \<lparr>files = wav_only, execs = [], timers = [], now = 0\<rparr>"

text \<open>
  Probes: both tools answer; no tool is installed; the download tool hangs while the
  transcoder answers.
\<close>

definition both_tools :: "string \<Rightarrow> unit promise" where
  "both_tools command = (if command = ''yt-dlp --version'' then Settled 120 (Inr ())
                         else Settled 80 (Inr ()))"

definition no_tools :: "string \<Rightarrow> unit promise" where
  "no_tools command = Settled 15 (Inl ExecFailed)"

definition stuck_ytdlp :: "string \<Rightarrow> unit promise" where
  "stuck_ytdlp command = (if command = ''yt-dlp --version'' then Pending
                          else Settled 40 (Inr ()))"

text \<open>
  External tools that, once they run, exit with status 0 and write nothing; a network that
  is down.
\<close>

definition idle_shell :: shell where
  "idle_shell command fs = (True, fs)"

definition offline :: network where
  "offline = \<lparr>post_cobalt = (\<lambda>u. (30, Inl FetchFailed)), get_audio = (\<lambda>u. (30, Inl FetchFailed))\<rparr>"


definition webm_writer :: shell where
  "webm_writer command fs = (True, fs(''/app/temp/abc.webm'' := Some [26, 69, 223, 163]))"

text \<open>
  An environment with both tools and one with the download tool only. Three download tools
  for strategy 2: one leaves \<open>abc_temp.m4a\<close> behind; one exits with status 0 and leaves
  only the partial download \<open>abc_temp.m4a.part\<close>; one is cut off, leaves the same
  partial download and exits with a failure status. A temp directory that already holds
  \<open>abc.m4a\<close>.
\<close>

definition full_env :: environment where
  "full_env = \<lparr>type = ''full'', hasYtDlp = True, hasFFmpeg = True\<rparr>"













text \<open>
  An empty cache at time 0, an environment without tools, and two behaviours of the embed
  endpoint: one that fails during the first second and answers afterwards, one that always
  answers but reports a new title after an hour. The download tool hangs in both.
\<close>

definition no_entries :: "string \<Rightarrow> video_info option" where
  "no_entries k = None"

definition cold :: cache_state where
  "cold = \<lparr>videoInfoCache = no_entries, evictions = [], clock = 0, lookups = []\<rparr>"











section \<open>What a run with the download tool executes and probes\<close>




section \<open>Properties\<close>

subsection \<open>Bytes of a little-endian field\<close>

lemma unat_ucast8: "unat (ucast (x :: 'a::len word) :: 8 word) = unat x mod 256"
  by (simp add: unsigned_ucast_eq take_bit_eq_mod)

lemma nat_bytes32:
  fixes n :: nat
  assumes "n < 4294967296"
  shows "n mod 256 + 256 * (n div 256 mod 256) + 65536 * (n div 65536 mod 256)
           + 16777216 * (n div 16777216 mod 256) = n"
proof -
  define a where "a = n div 256"
  define b where "b = a div 256"
  define c where "c = b div 256"
  have n: "n = 256 * a + n mod 256" by (simp add: a_def)
  have a: "a = 256 * b + a mod 256" by (simp add: b_def)
  have b: "b = 256 * c + b mod 256" by (simp add: c_def)
  have b': "b = n div 65536" by (simp add: b_def a_def div_mult2_eq)
  have c': "c = n div 16777216" by (simp add: c_def b' div_mult2_eq)
  have "c < 256" using assms unfolding c' by simp
  then have c: "c mod 256 = c" by simp
  have "n mod 256 + 256 * (a mod 256) + 65536 * (b mod 256) + 16777216 * (c mod 256) = n"
    using n a b c by linarith
  then show ?thesis by (simp add: a_def [symmetric] b' [symmetric] c' [symmetric])
qed

lemma u32_bytes: "unat (ucast (x :: 32 word) :: 8 word) + 256 * unat (ucast (drop_bit 8 x) :: 8 word)
   + 65536 * unat (ucast (drop_bit 16 x) :: 8 word) + 16777216 * unat (ucast (drop_bit 24 x) :: 8 word) = unat x"
proof -
  have b: "unat x < 4294967296" using unsigned_less [of x, where 'a = nat] by simp
  have d: "unat (drop_bit k x) = unat x div 2 ^ k" for k
    unfolding unat_drop_bit_eq by (simp add: drop_bit_eq_div)
  have e: "unat (drop_bit 8 x) = unat x div 256" "unat (drop_bit 16 x) = unat x div 65536"
    "unat (drop_bit 24 x) = unat x div 16777216"
    by (simp_all add: d)
  show ?thesis
    unfolding unat_ucast8 e by (rule nat_bytes32 [OF b])
qed

lemma s16_bytes: "(word_cat (ucast (drop_bit 8 x) :: 8 word) (ucast (x :: 16 word) :: 8 word) :: 16 word) = x"
  by (rule bit_word_eqI) (auto simp add: bit_simps)

lemma sint_clamped: "- 32768 \<le> v \<Longrightarrow> v \<le> 32767 \<Longrightarrow> sint (word_of_int v :: 16 word) = v"
  by (simp add: sint_sbintrunc' signed_take_bit_int_eq_self)

subsection \<open>The WAV header and the sample loop\<close>

lemma zeros44: "replicate 44 (0::byte) = [0,0,0,0,0,0,0,0,0,0,0,0,0,0,0,0,0,0,0,0,0,0,0,0,0,0,0,0,0,0,0,0,0,0,0,0,0,0,0,0,0,0,0,0]"
  by (simp add: eval_nat_numeral)

lemma createWavHeader_bytes:
  "createWavHeader samples sampleRate =
     Some [82, 73, 70, 70,
           ucast (of_nat (36 + samples * 2) :: 32 word),
           ucast (drop_bit 8 (of_nat (36 + samples * 2) :: 32 word)),
           ucast (drop_bit 16 (of_nat (36 + samples * 2) :: 32 word)),
           ucast (drop_bit 24 (of_nat (36 + samples * 2) :: 32 word)),
           87, 65, 86, 69,
           102, 109, 116, 32,
           16, 0, 0, 0,
           1, 0,
           1, 0,
           ucast (of_nat sampleRate :: 32 word),
           ucast (drop_bit 8 (of_nat sampleRate :: 32 word)),
           ucast (drop_bit 16 (of_nat sampleRate :: 32 word)),
           ucast (drop_bit 24 (of_nat sampleRate :: 32 word)),
           ucast (of_nat (sampleRate * 2) :: 32 word),
           ucast (drop_bit 8 (of_nat (sampleRate * 2) :: 32 word)),
           ucast (drop_bit 16 (of_nat (sampleRate * 2) :: 32 word)),
           ucast (drop_bit 24 (of_nat (sampleRate * 2) :: 32 word)),
           2, 0,
           16, 0,
           100, 97, 116, 97,
           ucast (of_nat (samples * 2) :: 32 word),
           ucast (drop_bit 8 (of_nat (samples * 2) :: 32 word)),
           ucast (drop_bit 16 (of_nat (samples * 2) :: 32 word)),
           ucast (drop_bit 24 (of_nat (samples * 2) :: 32 word))]"
  unfolding createWavHeader_def zeros44
  by (simp add: setUint32_def setUint16_def put16_def setUint8_def Let_def)

lemma put16_fits:
  "offset + 2 \<le> length buf \<Longrightarrow>
     put16 offset x buf = Some (buf[offset := ucast x, offset + 1 := ucast (drop_bit 8 x)])"
  by (simp add: put16_def)

lemma sample_loop_writes:
  "length buf = 2 * samples \<Longrightarrow>
     \<exists>b. sample_loop floored i samples buf = Some b \<and> length b = 2 * samples
       \<and> (\<forall>j. i \<le> j \<and> j < samples \<longrightarrow>
             b ! (2 * j) = ucast (word_of_int (intSample floored j) :: 16 word)
           \<and> b ! (2 * j + 1) = ucast (drop_bit 8 (word_of_int (intSample floored j) :: 16 word)))
       \<and> (\<forall>k. k < 2 * i \<longrightarrow> k < 2 * samples \<longrightarrow> b ! k = buf ! k)"
proof (induction floored i samples buf rule: sample_loop.induct)
  case (1 floored i samples buf)
  show ?case
  proof (cases "i < samples")
    case False
    then show ?thesis using "1.prems" by (auto simp add: sample_loop.simps [of floored i samples buf])
  next
    case True
    define x where "x = (word_of_int (intSample floored i) :: 16 word)"
    define buf' where "buf' = buf[i * 2 := ucast x, i * 2 + 1 := ucast (drop_bit 8 x)]"
    have fits: "i * 2 + 2 \<le> length buf" using True "1.prems" by simp
    have set: "setInt16 (i * 2) (intSample floored i) buf = Some buf'"
      by (simp add: setInt16_def put16_fits [OF fits] buf'_def x_def)
    have len: "length buf' = 2 * samples" using "1.prems" by (simp add: buf'_def)
    from "1.IH" [OF True set len] obtain b where
      b: "sample_loop floored (i + 1) samples buf' = Some b" "length b = 2 * samples"
      and later: "\<forall>j. i + 1 \<le> j \<and> j < samples \<longrightarrow>
             b ! (2 * j) = ucast (word_of_int (intSample floored j) :: 16 word)
           \<and> b ! (2 * j + 1) = ucast (drop_bit 8 (word_of_int (intSample floored j) :: 16 word))"
      and kept: "\<forall>k. k < 2 * (i + 1) \<longrightarrow> k < 2 * samples \<longrightarrow> b ! k = buf' ! k"
      by blast
    have run: "sample_loop floored i samples buf = Some b"
      using True set b(1) by (simp add: sample_loop.simps [of floored i samples buf])
    have lo: "b ! (2 * i) = ucast x"
      using kept True fits by (simp add: buf'_def mult.commute)
    have hi: "b ! (2 * i + 1) = ucast (drop_bit 8 x)"
      using kept True fits by (simp add: buf'_def mult.commute)
    have before: "b ! k = buf ! k" if "k < 2 * i" "k < 2 * samples" for k
      using kept that by (simp add: buf'_def)
    have "\<forall>j. i \<le> j \<and> j < samples \<longrightarrow>
             b ! (2 * j) = ucast (word_of_int (intSample floored j) :: 16 word)
           \<and> b ! (2 * j + 1) = ucast (drop_bit 8 (word_of_int (intSample floored j) :: 16 word))"
    proof (intro allI impI)
      fix j assume j: "i \<le> j \<and> j < samples"
      show "b ! (2 * j) = ucast (word_of_int (intSample floored j) :: 16 word)
           \<and> b ! (2 * j + 1) = ucast (drop_bit 8 (word_of_int (intSample floored j) :: 16 word))"
      proof (cases "j = i")
        case True
        then show ?thesis using lo hi by (simp add: x_def)
      next
        case False
        then have "i + 1 \<le> j \<and> j < samples" using j by simp
        then show ?thesis using later by blast
      qed
    qed
    then show ?thesis using run b(2) before by blast
  qed
qed

lemma demo_bytes_value:
  "\<exists>header buffer. createWavHeader (sampleRate * secs) sampleRate = Some header
     \<and> sample_loop floored 0 (sampleRate * secs) (replicate (sampleRate * secs * 2) 0) = Some buffer
     \<and> length header = 44 \<and> length buffer = 2 * (sampleRate * secs)
     \<and> demo_bytes floored sampleRate secs = Some (header @ buffer)"
proof -
  obtain header where h: "createWavHeader (sampleRate * secs) sampleRate = Some header"
    and hl: "length header = 44"
    by (simp add: createWavHeader_bytes)
  have "length (replicate (sampleRate * secs * 2) (0::byte)) = 2 * (sampleRate * secs)"
    by simp
  from sample_loop_writes [OF this, of floored 0] obtain buffer where
    b: "sample_loop floored 0 (sampleRate * secs) (replicate (sampleRate * secs * 2) 0) = Some buffer"
    and bl: "length buffer = 2 * (sampleRate * secs)"
    by blast
  have "demo_bytes floored sampleRate secs = Some (header @ buffer)"
    by (simp add: demo_bytes_def h b hl bl typed_set_def Let_def)
  then show ?thesis using h b hl bl by blast
qed

lemma intSample_range: "- 32768 \<le> intSample floored i \<and> intSample floored i \<le> 32767"
  by (simp add: intSample_def)

lemma createWavHeader_fields:
  assumes "createWavHeader samples sampleRate = Some header"
  shows "length header = 44"
    and "u32_at header 4 = unat (of_nat (36 + samples * 2) :: 32 word)"
    and "u32_at header 40 = unat (of_nat (samples * 2) :: 32 word)"
proof -
  from assms have "header = the (createWavHeader samples sampleRate)" by simp
  then have heq: "header = the (Some
          [82, 73, 70, 70,
           ucast (of_nat (36 + samples * 2) :: 32 word),
           ucast (drop_bit 8 (of_nat (36 + samples * 2) :: 32 word)),
           ucast (drop_bit 16 (of_nat (36 + samples * 2) :: 32 word)),
           ucast (drop_bit 24 (of_nat (36 + samples * 2) :: 32 word)),
           87, 65, 86, 69,
           102, 109, 116, 32,
           16, 0, 0, 0,
           1, 0,
           1, 0,
           ucast (of_nat sampleRate :: 32 word),
           ucast (drop_bit 8 (of_nat sampleRate :: 32 word)),
           ucast (drop_bit 16 (of_nat sampleRate :: 32 word)),
           ucast (drop_bit 24 (of_nat sampleRate :: 32 word)),
           ucast (of_nat (sampleRate * 2) :: 32 word),
           ucast (drop_bit 8 (of_nat (sampleRate * 2) :: 32 word)),
           ucast (drop_bit 16 (of_nat (sampleRate * 2) :: 32 word)),
           ucast (drop_bit 24 (of_nat (sampleRate * 2) :: 32 word)),
           2, 0,
           16, 0,
           100, 97, 116, 97,
           ucast (of_nat (samples * 2) :: 32 word),
           ucast (drop_bit 8 (of_nat (samples * 2) :: 32 word)),
           ucast (drop_bit 16 (of_nat (samples * 2) :: 32 word)),
           ucast (drop_bit 24 (of_nat (samples * 2) :: 32 word))])"
    by (simp only: createWavHeader_bytes)
  show "length header = 44" by (simp add: heq)
  show "u32_at header 4 = unat (of_nat (36 + samples * 2) :: 32 word)"
    by (simp add: heq u32_at_def u32_bytes)
  show "u32_at header 40 = unat (of_nat (samples * 2) :: 32 word)"
    by (simp add: heq u32_at_def u32_bytes)
qed

lemma demo_bytes_fields:
  "\<exists>bytes. demo_bytes floored sampleRate secs = Some bytes
     \<and> length bytes = 44 + 2 * (sampleRate * secs)
     \<and> u32_at bytes 4 = (36 + 2 * (sampleRate * secs)) mod 4294967296
     \<and> u32_at bytes 40 = (2 * (sampleRate * secs)) mod 4294967296
     \<and> (\<forall>i. i < sampleRate * secs \<longrightarrow> s16_at bytes (44 + 2 * i) = intSample floored i)"
proof -
  define samples where "samples = sampleRate * secs"
  obtain header buffer where
    h: "createWavHeader samples sampleRate = Some header"
    and b: "sample_loop floored 0 samples (replicate (samples * 2) 0) = Some buffer"
    and hl: "length header = 44" and bl: "length buffer = 2 * samples"
    and d: "demo_bytes floored sampleRate secs = Some (header @ buffer)"
    using demo_bytes_value [of sampleRate secs floored] unfolding samples_def by blast
  have "length (replicate (samples * 2) (0::byte)) = 2 * samples" by simp
  from sample_loop_writes [OF this, of floored 0] b
  have w: "\<forall>j. j < samples \<longrightarrow>
             buffer ! (2 * j) = ucast (word_of_int (intSample floored j) :: 16 word)
           \<and> buffer ! (2 * j + 1) = ucast (drop_bit 8 (word_of_int (intSample floored j) :: 16 word))"
    by auto
  have head: "(header @ buffer) ! k = header ! k" if "k < 44" for k
    using that hl by (simp add: nth_append)
  have "u32_at (header @ buffer) k = u32_at header k" if "k + 3 < 44" for k
    using that by (simp add: u32_at_def head)
  then have u4: "u32_at (header @ buffer) 4 = unat (of_nat (36 + samples * 2) :: 32 word)"
    and u40: "u32_at (header @ buffer) 40 = unat (of_nat (samples * 2) :: 32 word)"
    using createWavHeader_fields [OF h] by simp_all
  have m: "unat (of_nat n :: 32 word) = n mod 4294967296" for n
    by (simp add: unat_of_nat)
  have s: "s16_at (header @ buffer) (44 + 2 * i) = intSample floored i" if "i < samples" for i
  proof -
    have "(header @ buffer) ! (44 + 2 * i) = buffer ! (2 * i)"
      using hl by (simp add: nth_append)
    moreover have "(header @ buffer) ! (44 + 2 * i + 1) = buffer ! (2 * i + 1)"
      using hl by (simp add: nth_append)
    ultimately have "s16_at (header @ buffer) (44 + 2 * i)
        = sint (word_of_int (intSample floored i) :: 16 word)"
      using w that by (simp add: s16_at_def s16_bytes)
    then show ?thesis
      using intSample_range [of floored i] by (simp add: sint_clamped)
  qed
  have u4': "u32_at (header @ buffer) 4 = (36 + 2 * samples) mod 4294967296"
    using u4 unfolding m by (simp add: mult.commute)
  have u40': "u32_at (header @ buffer) 40 = (2 * samples) mod 4294967296"
    using u40 unfolding m by (simp add: mult.commute)
  have "length (header @ buffer) = 44 + 2 * samples" using hl bl by simp
  then show ?thesis
    using d u4' u40' s unfolding samples_def by blast
qed

text \<open>
  C9. The placeholder synthesizer always succeeds and writes exactly
  \<open>44 + 2 * (22050 * 10) = 441044\<close> bytes. Read back as little-endian fields, bytes 4 to 7
  hold \<open>36 + 2 * samples\<close>, bytes 40 to 43 hold \<open>2 * samples\<close>, which is the length of
  the payload after the 44-byte header, and every sample is a 16-bit value between
  \<open>-32768\<close> and \<open>32767\<close> that the file stores unchanged.
\<close>

theorem createFastDemo_wav_file:
  "\<exists>bytes. createFastDemo floored outputPath w = (Inr (), fs_writeFile outputPath bytes w)
     \<and> length bytes = 441044 \<and> length bytes = 44 + 2 * (22050 * 10)
     \<and> u32_at bytes 4 = 36 + 2 * 220500
     \<and> u32_at bytes 40 = 2 * 220500
     \<and> length (drop 44 bytes) = 2 * 220500
     \<and> (\<forall>i. i < 220500 \<longrightarrow>
           - 32768 \<le> intSample floored i \<and> intSample floored i \<le> 32767
         \<and> s16_at bytes (44 + 2 * i) = intSample floored i)"
proof -
  obtain bytes where d: "demo_bytes floored 22050 10 = Some bytes"
    and l: "length bytes = 44 + 2 * (22050 * 10)"
    and u4: "u32_at bytes 4 = (36 + 2 * (22050 * 10)) mod 4294967296"
    and u40: "u32_at bytes 40 = (2 * (22050 * 10)) mod 4294967296"
    and s: "\<forall>i. i < 22050 * 10 \<longrightarrow> s16_at bytes (44 + 2 * i) = intSample floored i"
    using demo_bytes_fields [of floored 22050 10] by blast
  have run: "createFastDemo floored outputPath w = (Inr (), fs_writeFile outputPath bytes w)"
    by (simp add: createFastDemo_def d)
  have samples: "\<forall>i. i < 220500 \<longrightarrow>
           - 32768 \<le> intSample floored i \<and> intSample floored i \<le> 32767
         \<and> s16_at bytes (44 + 2 * i) = intSample floored i"
    using s intSample_range [of floored] by simp
  have "length bytes = 441044" "u32_at bytes 4 = 36 + 2 * 220500"
    "u32_at bytes 40 = 2 * 220500" "length (drop 44 bytes) = 2 * 220500"
    using l u4 u40 by simp_all
  with run l samples show ?thesis by blast
qed

theorem createFastDemo_wav_file_witness:
  "\<exists>bytes. createFastDemo silence ''/app/temp/abc.mp3'' fresh_world
         = (Inr (), fs_writeFile ''/app/temp/abc.mp3'' bytes fresh_world)
     \<and> length bytes = 441044 \<and> (3::nat) < 220500 \<and> s16_at bytes 50 = 0"
proof -
  obtain bytes where
    run: "createFastDemo silence ''/app/temp/abc.mp3'' fresh_world
         = (Inr (), fs_writeFile ''/app/temp/abc.mp3'' bytes fresh_world)"
    and l: "length bytes = 441044"
    and s: "\<forall>i. i < 220500 \<longrightarrow>
           - 32768 \<le> intSample silence i \<and> intSample silence i \<le> 32767
         \<and> s16_at bytes (44 + 2 * i) = intSample silence i"
    using createFastDemo_wav_file [of silence "''/app/temp/abc.mp3''" fresh_world] by blast
  have three: "(3::nat) < 220500" by simp
  from s three have "s16_at bytes (44 + 2 * 3) = intSample silence 3" by blast
  then have "s16_at bytes 50 = 0" by (simp add: intSample_def silence_def)
  with run l three show ?thesis by blast
qed

subsection \<open>Content types\<close>

lemma extname_shape: "extname p = [] \<or> hd (extname p) = CHR ''.''"
  by (simp add: extname_def Let_def)

lemma toLowerCase_shape:
  "e = [] \<or> hd e = CHR ''.'' \<Longrightarrow> toLowerCase e = [] \<or> hd (toLowerCase e) = CHR ''.''"
  by (cases e) (auto simp add: toLowerCase_def lower_char_def)

lemma not_inherited: "e = [] \<or> hd e = CHR ''.'' \<Longrightarrow> e \<notin> set object_prototype_names"
  by (auto simp add: object_prototype_names_def)

lemma getContentType_known:
  "getContentType ''.mp3'' = JStr ''audio/mpeg''"
  "getContentType ''.m4a'' = JStr ''audio/mp4''"
  "getContentType ''.webm'' = JStr ''audio/webm''"
  "getContentType ''.opus'' = JStr ''audio/opus''"
  "getContentType ''.aac'' = JStr ''audio/aac''"
  "getContentType ''.wav'' = JStr ''audio/wav''"
  by (simp_all add: getContentType_def js_index_def contentTypes_def js_or_def)

lemma getContentType_default:
  assumes "e = [] \<or> hd e = CHR ''.''"
    and "e \<notin> set [''.mp3'', ''.m4a'', ''.webm'', ''.opus'', ''.aac'', ''.wav'']"
  shows "getContentType e = JStr ''audio/mpeg''"
proof -
  have "map_of contentTypes e = None" using assms(2) by (simp add: contentTypes_def)
  moreover have "e \<notin> set object_prototype_names" using assms(1) by (rule not_inherited)
  ultimately show ?thesis by (simp add: getContentType_def js_index_def js_or_def)
qed

lemma getContentType_string:
  assumes "e = [] \<or> hd e = CHR ''.''"
  shows "\<exists>s. getContentType e = JStr s"
proof (cases "e \<in> set [''.mp3'', ''.m4a'', ''.webm'', ''.opus'', ''.aac'', ''.wav'']")
  case True
  then show ?thesis using getContentType_known by auto
next
  case False
  then show ?thesis using getContentType_default [OF assms] by blast
qed

text \<open>
  C10. Deriving the content type cannot fail. Each of the six known extensions has its audio
  MIME type. An extension is what \<open>path.extname\<close> yields, a string that is empty or
  starts with a dot; every extension outside the six gets the default \<open>audio/mpeg\<close>.
  So at serve time, whatever the path, the content type is a string.
\<close>

theorem getContentType_total:
  "getContentType ''.mp3'' = JStr ''audio/mpeg''
   \<and> getContentType ''.m4a'' = JStr ''audio/mp4''
   \<and> getContentType ''.webm'' = JStr ''audio/webm''
   \<and> getContentType ''.opus'' = JStr ''audio/opus''
   \<and> getContentType ''.aac'' = JStr ''audio/aac''
   \<and> getContentType ''.wav'' = JStr ''audio/wav''
   \<and> (\<forall>e. (e = [] \<or> hd e = CHR ''.'')
          \<longrightarrow> e \<notin> set [''.mp3'', ''.m4a'', ''.webm'', ''.opus'', ''.aac'', ''.wav'']
          \<longrightarrow> getContentType e = JStr ''audio/mpeg'')
   \<and> (\<forall>p. \<exists>s. getContentType (toLowerCase (extname p)) = JStr s)"
  using getContentType_known getContentType_default
    getContentType_string [OF toLowerCase_shape [OF extname_shape]]
  by blast

theorem getContentType_total_witness:
  "getContentType ''.flac'' = JStr ''audio/mpeg''
   \<and> getContentType (toLowerCase (extname ''/app/temp/abc.WAV'')) = JStr ''audio/wav''"
proof -
  have shape: "''.flac'' = [] \<or> hd ''.flac'' = CHR ''.''" by simp
  have other: "''.flac'' \<notin> set [''.mp3'', ''.m4a'', ''.webm'', ''.opus'', ''.aac'', ''.wav'']"
    by simp
  have "getContentType ''.flac'' = JStr ''audio/mpeg''"
    using getContentType_total shape other by blast
  moreover have "toLowerCase (extname ''/app/temp/abc.WAV'') = ''.wav''"
    by code_simp
  moreover have "getContentType ''.wav'' = JStr ''audio/wav''"
    using getContentType_total by blast
  ultimately show ?thesis by simp
qed

subsection \<open>The progress route\<close>

lemma progress_loop_None:
  "progress_loop fs dir videoId exts = None
     \<longleftrightarrow> (\<forall>ext \<in> set exts. fs (path_join dir (videoId @ ext)) = None)"
  by (induction exts) (auto simp add: Let_def split: option.splits)

lemma progress_loop_Some:
  "progress_loop fs dir videoId exts = Some info \<Longrightarrow> exists info \<and> ready info"
  by (induction exts) (auto simp add: Let_def split: option.splits)

lemma progress_GET_exists_iff:
  "exists (progress_GET cwd fs videoId)
     \<longleftrightarrow> (\<exists>ext \<in> set [''.mp3'', ''.m4a'', ''.webm'', ''.opus''].
            fs (path_join (TEMP_DIR cwd) (videoId @ ext)) \<noteq> None)"
proof (cases "progress_loop fs (TEMP_DIR cwd) videoId [''.mp3'', ''.m4a'', ''.webm'', ''.opus'']")
  case None
  then show ?thesis
    using progress_loop_None [of fs "TEMP_DIR cwd" videoId "[''.mp3'', ''.m4a'', ''.webm'', ''.opus'']"]
    by (simp add: progress_GET_def)
next
  case (Some info)
  then show ?thesis
    using progress_loop_None [of fs "TEMP_DIR cwd" videoId "[''.mp3'', ''.m4a'', ''.webm'', ''.opus'']"]
      progress_loop_Some [OF Some]
    by (simp add: progress_GET_def)
qed

lemma progress_case_ready:
  "ready (case progress_loop fs dir videoId exts of Some fileInfo \<Rightarrow> fileInfo
          | None \<Rightarrow> \<lparr>exists = False, ready = False, size_bytes = None, fmt = None,
                     status = Some ''processing''\<rparr>)
   = exists (case progress_loop fs dir videoId exts of Some fileInfo \<Rightarrow> fileInfo
          | None \<Rightarrow> \<lparr>exists = False, ready = False, size_bytes = None, fmt = None,
                     status = Some ''processing''\<rparr>)"
  by (cases "progress_loop fs dir videoId exts") (auto dest: progress_loop_Some)

lemma progress_GET_ready: "ready (progress_GET cwd fs videoId) = exists (progress_GET cwd fs videoId)"
  unfolding progress_GET_def by (rule progress_case_ready)

text \<open>
  C1. The progress route probes \<open>.mp3\<close>, \<open>.m4a\<close>, \<open>.webm\<close> and \<open>.opus\<close> only. With
  \<open>abc.wav\<close> as the only file of the temp directory, the download route finds and serves
  the artifact, while the progress route answers \<open>exists: false\<close>, \<open>ready: false\<close>,
  \<open>status: "processing"\<close>.
\<close>

theorem progress_GET_misses_wav:
  "findVideoFile ''/app'' wav_only ''abc'' = Some ''/app/temp/abc.wav''
   \<and> fst (download_GET ''/app'' ''abc'' wav_world)
       = Served \<lparr>body = [82, 73, 70, 70], contentType = JStr ''audio/wav'',
                 contentDisposition = ''attachment; filename='' @ quoted ''youtube-abc.wav'',
                 contentLength = 4, cacheControl = ''no-cache''\<rparr>
   \<and> progress_GET ''/app'' wav_only ''abc''
       = \<lparr>exists = False, ready = False, size_bytes = None, fmt = None,
          status = Some ''processing''\<rparr>"
proof -
  have f: "findVideoFile ''/app'' wav_only ''abc'' = Some ''/app/temp/abc.wav''"
    by (simp add: findVideoFile_def TEMP_DIR_def path_join_def wav_only_def)
  have e: "toLowerCase (extname ''/app/temp/abc.wav'') = ''.wav''"
    by code_simp
  have d: "fst (download_GET ''/app'' ''abc'' wav_world)
       = Served \<lparr>body = [82, 73, 70, 70], contentType = JStr ''audio/wav'',
                 contentDisposition = ''attachment; filename='' @ quoted ''youtube-abc.wav'',
                 contentLength = 4, cacheControl = ''no-cache''\<rparr>"
    by (simp add: download_GET_def wav_world_def wav_only_def f e getContentType_known Let_def)
  have p: "progress_GET ''/app'' wav_only ''abc''
       = \<lparr>exists = False, ready = False, size_bytes = None, fmt = None,
          status = Some ''processing''\<rparr>"
    by (simp add: progress_GET_def TEMP_DIR_def path_join_def wav_only_def)
  from f d p show ?thesis by blast
qed

subsection \<open>Probes and strategy selection\<close>

lemma quickEnvironmentCheck_settled:
  assumes "run ''yt-dlp --version'' = Settled t1 r1" and "run ''ffmpeg -version'' = Settled t2 r2"
  shows "quickEnvironmentCheck run
           = Some (max t1 t2,
                   \<lparr>type = (if r1 = Inr () \<and> r2 = Inr () then ''full''
                            else if r1 = Inr () then ''ytdlp-only'' else ''online''),
                    hasYtDlp = (r1 = Inr ()), hasFFmpeg = (r2 = Inr ())\<rparr>)"
proof -
  have "fulfilled (Settled t r) = (r = Inr ())" for t and r :: "error + unit"
    by (cases r) (simp_all add: fulfilled_def)
  then show ?thesis using assms by (simp add: quickEnvironmentCheck_def Let_def)
qed

lemma quickEnvironmentCheck_None:
  "quickEnvironmentCheck run = None
     \<longleftrightarrow> run ''yt-dlp --version'' = Pending \<or> run ''ffmpeg -version'' = Pending"
  by (cases "run ''yt-dlp --version''"; cases "run ''ffmpeg -version''")
     (simp_all add: quickEnvironmentCheck_def Let_def)

lemma quickEnvironmentCheck_type:
  assumes "quickEnvironmentCheck run = Some (t, env)"
  shows "type env = (if hasYtDlp env \<and> hasFFmpeg env then ''full''
                     else if hasYtDlp env then ''ytdlp-only'' else ''online'')"
  using assms
  by (cases "run ''yt-dlp --version''"; cases "run ''ffmpeg -version''")
     (auto simp add: quickEnvironmentCheck_def Let_def)

text \<open>
  C2. The strategy is a function of the two capability flags alone: with both tools the
  runner is the native download with transcoding (strategy 1), with the download tool only
  it is the download without transcoding (strategy 2), with neither it is the online
  strategy (strategy 3). The result and the effect on the world are those of the selected
  strategy; the selection adds none of its own. The label that the capability check gives the
  environment is the same function of the flags.
\<close>

theorem strategy_selection:
  "fastDownloadAudio sh net floored cwd url videoId
       \<lparr>type = label, hasYtDlp = True, hasFFmpeg = True\<rparr> w
     = Some (superFastDownloadWithFFmpeg sh cwd url videoId w)
   \<and> fastDownloadAudio sh net floored cwd url videoId
       \<lparr>type = label, hasYtDlp = True, hasFFmpeg = False\<rparr> w
     = Some (fastDownloadOriginal sh cwd url videoId w)
   \<and> fastDownloadAudio sh net floored cwd url videoId
       \<lparr>type = label, hasYtDlp = False, hasFFmpeg = False\<rparr> w
     = onlineDownload net floored cwd url videoId w
   \<and> (\<forall>t env. quickEnvironmentCheck run = Some (t, env) \<longrightarrow>
         type env = (if hasYtDlp env \<and> hasFFmpeg env then ''full''
                     else if hasYtDlp env then ''ytdlp-only'' else ''online''))"
  using quickEnvironmentCheck_type [of run] by (simp add: fastDownloadAudio_def)

theorem strategy_selection_witness:
  "quickEnvironmentCheck both_tools
     = Some (120, \<lparr>type = ''full'', hasYtDlp = True, hasFFmpeg = True\<rparr>)
   \<and> fastDownloadAudio idle_shell offline silence ''/app'' ''https://youtu.be/abc'' ''abc''
       \<lparr>type = ''full'', hasYtDlp = True, hasFFmpeg = True\<rparr> fresh_world
     = Some (superFastDownloadWithFFmpeg idle_shell ''/app'' ''https://youtu.be/abc'' ''abc''
               fresh_world)"
proof -
  have q: "quickEnvironmentCheck both_tools
     = Some (120, \<lparr>type = ''full'', hasYtDlp = True, hasFFmpeg = True\<rparr>)"
    by (simp add: quickEnvironmentCheck_def both_tools_def fulfilled_def Let_def)
  have "fastDownloadAudio idle_shell offline silence ''/app'' ''https://youtu.be/abc'' ''abc''
       \<lparr>type = ''full'', hasYtDlp = True, hasFFmpeg = True\<rparr> fresh_world
     = Some (superFastDownloadWithFFmpeg idle_shell ''/app'' ''https://youtu.be/abc'' ''abc''
               fresh_world)"
    using strategy_selection [of idle_shell offline silence "''/app''" "''https://youtu.be/abc''"
        "''abc''" "''full''" fresh_world both_tools]
    by blast
  with q show ?thesis by blast
qed

text \<open>
  C7, as the code has it. The probes carry no timeout. The capability check returns exactly
  when both version commands have settled, after the longer of the two; a tool that is
  absent settles as a rejection, which clears its flag and stalls nothing. A probe that never
  settles keeps the check, and the request that awaits it, from ever returning.
\<close>

theorem quickEnvironmentCheck_waits_for_both:
  "(quickEnvironmentCheck run = None
      \<longleftrightarrow> run ''yt-dlp --version'' = Pending \<or> run ''ffmpeg -version'' = Pending)
   \<and> (\<forall>t1 r1 t2 r2.
         run ''yt-dlp --version'' = Settled t1 r1 \<longrightarrow> run ''ffmpeg -version'' = Settled t2 r2 \<longrightarrow>
         quickEnvironmentCheck run
           = Some (max t1 t2,
                   \<lparr>type = (if r1 = Inr () \<and> r2 = Inr () then ''full''
                            else if r1 = Inr () then ''ytdlp-only'' else ''online''),
                    hasYtDlp = (r1 = Inr ()), hasFFmpeg = (r2 = Inr ())\<rparr>))"
  using quickEnvironmentCheck_None [of run] quickEnvironmentCheck_settled [of run] by blast

theorem quickEnvironmentCheck_waits_for_both_witness:
  "no_tools ''yt-dlp --version'' = Settled 15 (Inl ExecFailed)
   \<and> no_tools ''ffmpeg -version'' = Settled 15 (Inl ExecFailed)
   \<and> quickEnvironmentCheck no_tools
       = Some (15, \<lparr>type = ''online'', hasYtDlp = False, hasFFmpeg = False\<rparr>)"
proof -
  have y: "no_tools ''yt-dlp --version'' = Settled 15 (Inl ExecFailed)"
    and f: "no_tools ''ffmpeg -version'' = Settled 15 (Inl ExecFailed)"
    by (simp_all add: no_tools_def)
  from quickEnvironmentCheck_waits_for_both [of no_tools] y f
  have "quickEnvironmentCheck no_tools
           = Some (max 15 15,
                   \<lparr>type = (if (Inl ExecFailed :: error + unit) = Inr () \<and> (Inl ExecFailed :: error + unit) = Inr () then ''full''
                            else if (Inl ExecFailed :: error + unit) = Inr () then ''ytdlp-only'' else ''online''),
                    hasYtDlp = ((Inl ExecFailed :: error + unit) = Inr ()),
                    hasFFmpeg = ((Inl ExecFailed :: error + unit) = Inr ())\<rparr>)"
    by blast
  then have "quickEnvironmentCheck no_tools
       = Some (15, \<lparr>type = ''online'', hasYtDlp = False, hasFFmpeg = False\<rparr>)"
    by simp
  with y f show ?thesis by blast
qed

theorem probe_hang_counterexample:
  "stuck_ytdlp ''ffmpeg -version'' = Settled 40 (Inr ())
   \<and> stuck_ytdlp ''yt-dlp --version'' = Pending
   \<and> quickEnvironmentCheck stuck_ytdlp = None"
  by (simp add: quickEnvironmentCheck_def stuck_ytdlp_def Let_def)

subsection \<open>Strategy 3\<close>



lemma race_is_first_settled:
  "promise_race [(10, Inl CobaltFailed), (500, Inr bytes)] = Some (10, Inl CobaltFailed)"
  "first_success_wins [(10, Inl CobaltFailed), (500, Inr bytes)] = Some (500, Inr bytes)"
  by (simp_all add: promise_race_def first_success_wins_def)



subsection \<open>Moving the output of the external tool\<close>

lemma js_replace_at_end:
  assumes "pat \<noteq> []" and "\<forall>i<length s. \<not> prefix pat (drop i (s @ pat))"
  shows "js_replace pat rep (s @ pat) = s @ rep"
  using assms(2)
proof (induction s)
  case Nil
  obtain c cs where "pat = c # cs" using assms(1) by (cases pat) auto
  then show ?case by simp
next
  case (Cons a s)
  have "\<not> prefix pat (a # s @ pat)" using Cons.prems by force
  moreover have "\<forall>i<length s. \<not> prefix pat (drop i (s @ pat))"
  proof (intro allI impI)
    fix i assume "i < length s"
    then have "\<not> prefix pat (drop (Suc i) ((a # s) @ pat))" using Cons.prems by force
    then show "\<not> prefix pat (drop i (s @ pat))" by simp
  qed
  ultimately show ?case using Cons.IH by simp
qed

lemma possibleFiles_plain:
  assumes "\<forall>i<length stem. \<not> prefix ''.mp3'' (drop i (stem @ ''.mp3''))"
  shows "possibleFiles (stem @ ''.mp3'')
           = [stem @ ''.mp3'', stem @ ''.m4a'', stem @ ''.webm'', stem @ ''.opus'']"
  using assms by (simp add: possibleFiles_def js_replace_at_end)

lemma rename_loop_find:
  "rename_loop outputPath candidates w =
     (case find (\<lambda>f. files w f \<noteq> None) candidates of
        None \<Rightarrow> (Inl DownloadedFileNotFound, w)
      | Some f \<Rightarrow> if f \<noteq> outputPath then fs_move f outputPath w else (Inr (), w))"
  by (induction candidates) simp_all

lemma find_exists: "find P xs = Some x \<Longrightarrow> P x \<and> x \<in> set xs"
  by (induction xs) (auto split: if_splits)

lemma findAndRenameOutputFile_cases:
  "findAndRenameOutputFile outputPath w =
     (case find (\<lambda>f. files w f \<noteq> None) (possibleFiles outputPath) of
        None \<Rightarrow> (Inl DownloadedFileNotFound, w)
      | Some f \<Rightarrow>
          (Inr (), if f = outputPath then w
                   else w\<lparr>files := (files w)(f := None, outputPath := files w f)\<rparr>))"
proof (cases "files w outputPath")
  case (Some bytes)
  then show ?thesis
    by (simp add: findAndRenameOutputFile_def possibleFiles_def)
next
  case None
  show ?thesis
  proof (cases "find (\<lambda>f. files w f \<noteq> None) (possibleFiles outputPath)")
    case n: None
    then show ?thesis by (simp add: findAndRenameOutputFile_def rename_loop_find)
  next
    case (Some f)
    then have "files w f \<noteq> None" using find_exists by fastforce
    then obtain bytes where "files w f = Some bytes" by blast
    moreover from this None have "f \<noteq> outputPath" by auto
    ultimately show ?thesis
      using None Some by (simp add: findAndRenameOutputFile_def rename_loop_find fs_move_def)
  qed
qed

text \<open>
  The line of strategy 1 carries the user agent without quotes. Up to its opening
  parenthesis the line is the same for every output path and address, and it is made of
  plain words; so the shell rejects it, whatever the request. The line of strategy 2 has no
  parenthesis outside quotes; the first character in it that is not plain is a bracket.
\<close>

lemma superFastCommand_split:
  "superFastCommand outputPath url =
     ''yt-dlp --extract-audio --audio-format mp3 --audio-quality 5 --no-warnings --no-playlist --concurrent-fragments 4 --throttled-rate 100K --no-check-certificates --user-agent Mozilla/5.0 ''
     @ CHR ''('' # ''Windows NT 10.0; Win64; x64) AppleWebKit/537.36 -o ''
         @ quoted (js_replace ''.mp3'' ''.%(ext)s'' outputPath) @ '' '' @ quoted url"
  by (simp add: superFastCommand_def join_words_def)

lemma superFast_head_plain:
  "\<forall>c \<in> set ''yt-dlp --extract-audio --audio-format mp3 --audio-quality 5 --no-warnings --no-playlist --concurrent-fragments 4 --throttled-rate 100K --no-check-certificates --user-agent Mozilla/5.0 ''.
     plain_char c \<or> c = CHR '' ''"
  by code_simp

lemma superFast_head_words:
  "2 \<le> count_words False ''yt-dlp --extract-audio --audio-format mp3 --audio-quality 5 --no-warnings --no-playlist --concurrent-fragments 4 --throttled-rate 100K --no-check-certificates --user-agent Mozilla/5.0 ''"
  by code_simp

lemma superFast_head_first:
  "takeWhile (\<lambda>c. c \<noteq> CHR '' '') (dropWhile (\<lambda>c. c = CHR '' '') ''yt-dlp --extract-audio --audio-format mp3 --audio-quality 5 --no-warnings --no-playlist --concurrent-fragments 4 --throttled-rate 100K --no-check-certificates --user-agent Mozilla/5.0 '')
     \<notin> set reserved_words"
  by code_simp

lemma parenthesis_not_plain: "\<not> (plain_char (CHR ''('') \<or> CHR ''('' = CHR '' '')"
  by code_simp

lemma rejected_after_plain_words:
  assumes "\<forall>c \<in> set head. plain_char c \<or> c = CHR '' ''"
    and "2 \<le> count_words False head"
    and "takeWhile (\<lambda>c. c \<noteq> CHR '' '') (dropWhile (\<lambda>c. c = CHR '' '') head) \<notin> set reserved_words"
  shows "sh_syntax_error (head @ CHR ''('' # rest)"
proof -
  have t: "takeWhile (\<lambda>c. plain_char c \<or> c = CHR '' '') (head @ CHR ''('' # rest) = head"
    using assms(1) parenthesis_not_plain by (simp add: takeWhile_append2)
  have d: "dropWhile (\<lambda>c. plain_char c \<or> c = CHR '' '') (head @ CHR ''('' # rest) = CHR ''('' # rest"
    using assms(1) parenthesis_not_plain by (simp add: dropWhile_append2)
  show ?thesis
    unfolding sh_syntax_error_def t d Let_def using assms(2,3) by simp
qed

lemma superFastCommand_rejected: "sh_syntax_error (superFastCommand outputPath url)"
  unfolding superFastCommand_split
  by (rule rejected_after_plain_words
        [OF superFast_head_plain superFast_head_words superFast_head_first])






lemma superFast_rejected:
  "superFastDownloadWithFFmpeg sh cwd url videoId w =
     (Inl ExecFailed,
      w\<lparr>execs := execs w @ [superFastCommand (path_join (TEMP_DIR cwd) (videoId @ ''.mp3'')) url]\<rparr>)"
  by (simp add: superFastDownloadWithFFmpeg_def execAsync_def run_shell_def
      superFastCommand_rejected Let_def)





lemma extname_mp3:
  "extname (p @ ''.mp3'') = [] \<or> extname (p @ ''.mp3'') = ''.mp3''"
proof -
  define s where "s = rev (takeWhile (\<lambda>c. c \<noteq> CHR ''/'') (rev p))"
  have b: "last_segment (p @ ''.mp3'') = s @ ''.mp3''"
    by (simp add: last_segment_def s_def)
  show ?thesis
    by (cases "s = []") (simp_all add: extname_def b Let_def)
qed

lemma toLowerCase_mp3: "toLowerCase ''.mp3'' = ''.mp3''"
  by code_simp

lemma getContentType_empty: "getContentType [] = JStr ''audio/mpeg''"
  by (rule getContentType_default) simp_all

lemma toLowerCase_Nil: "toLowerCase [] = []"
  by (simp add: toLowerCase_def)

lemma served_mp3_type:
  "getContentType (toLowerCase (extname (p @ ''.mp3''))) = JStr ''audio/mpeg''"
  using extname_mp3 [of p]
  by (auto simp add: toLowerCase_mp3 getContentType_known getContentType_empty toLowerCase_Nil)

lemma findVideoFile_mp3:
  "fs (path_join (TEMP_DIR cwd) (videoId @ ''.mp3'')) \<noteq> None
     \<Longrightarrow> findVideoFile cwd fs videoId = Some (path_join (TEMP_DIR cwd) (videoId @ ''.mp3''))"
  by (simp add: findVideoFile_def)

lemma download_GET_mp3:
  assumes "files w (path_join (TEMP_DIR cwd) (videoId @ ''.mp3'')) = Some bytes"
  shows "\<exists>s. fst (download_GET cwd videoId w) = Served s \<and> body s = bytes
            \<and> contentType s = JStr ''audio/mpeg''"
proof -
  have p: "path_join (TEMP_DIR cwd) (videoId @ ''.mp3'') = path_join (TEMP_DIR cwd) videoId @ ''.mp3''"
    by (simp add: path_join_def)
  have "findVideoFile cwd (files w) videoId = Some (path_join (TEMP_DIR cwd) (videoId @ ''.mp3''))"
    using assms by (simp add: findVideoFile_mp3)
  then show ?thesis
    using assms served_mp3_type [of "path_join (TEMP_DIR cwd) videoId"]
    by (simp add: download_GET_def Let_def p)
qed

lemma possibleFiles_abc:
  "possibleFiles ''/app/temp/abc.mp3''
     = [''/app/temp/abc.mp3'', ''/app/temp/abc.m4a'', ''/app/temp/abc.webm'', ''/app/temp/abc.opus'']"
  by (simp add: possibleFiles_def)

lemma abc_path: "path_join (TEMP_DIR ''/app'') ''abc.mp3'' = ''/app/temp/abc.mp3''"
  by (simp add: TEMP_DIR_def path_join_def)

text \<open>
  What strategy 1 does with the files once its command has exited with status 0. The first
  file among the probed names is moved to \<open>{temp_dir}/{id}.mp3\<close>, its bytes untouched, and
  the download route then serves these bytes with the content type \<open>audio/mpeg\<close>,
  whatever container they are. When \<open>.mp3\<close> occurs in the output path only as its suffix,
  the probed names are \<open>{id}.mp3\<close>, \<open>{id}.m4a\<close>, \<open>{id}.webm\<close> and \<open>{id}.opus\<close>, in
  this order.
\<close>

lemma renamed_output_is_mp3:
  assumes "findAndRenameOutputFile (path_join (TEMP_DIR cwd) (videoId @ ''.mp3'')) w1 = (Inr u, w')"
  shows "\<exists>produced bytes.
          find (\<lambda>f. files w1 f \<noteq> None)
            (possibleFiles (path_join (TEMP_DIR cwd) (videoId @ ''.mp3''))) = Some produced
        \<and> files w1 produced = Some bytes
        \<and> files w' (path_join (TEMP_DIR cwd) (videoId @ ''.mp3'')) = Some bytes
        \<and> (produced \<noteq> path_join (TEMP_DIR cwd) (videoId @ ''.mp3'') \<longrightarrow> files w' produced = None)
        \<and> (\<exists>s. fst (download_GET cwd videoId w') = Served s \<and> body s = bytes
                \<and> contentType s = JStr ''audio/mpeg'')"
proof -
  define out where "out = path_join (TEMP_DIR cwd) (videoId @ ''.mp3'')"
  from assms obtain produced where
    found: "find (\<lambda>f. files w1 f \<noteq> None) (possibleFiles out) = Some produced"
    and w': "w' = (if produced = out then w1
                   else w1\<lparr>files := (files w1)(produced := None, out := files w1 produced)\<rparr>)"
    unfolding findAndRenameOutputFile_cases out_def [symmetric]
    by (auto split: option.splits)
  from find_exists [OF found] obtain bytes where bytes: "files w1 produced = Some bytes" by blast
  have at_out: "files w' out = Some bytes"
    using bytes by (auto simp add: w')
  have gone: "produced \<noteq> out \<longrightarrow> files w' produced = None"
    by (simp add: w')
  have "\<exists>s. fst (download_GET cwd videoId w') = Served s \<and> body s = bytes
                \<and> contentType s = JStr ''audio/mpeg''"
    using at_out unfolding out_def by (rule download_GET_mp3)
  with found bytes at_out gone show ?thesis unfolding out_def by blast
qed

lemma renamed_webm_is_mp3:
  "\<exists>w'. findAndRenameOutputFile ''/app/temp/abc.mp3''
            (fresh_world\<lparr>files := snd (webm_writer c (files fresh_world))\<rparr>) = (Inr (), w')
       \<and> files w' ''/app/temp/abc.mp3'' = Some [26, 69, 223, 163]
       \<and> files w' ''/app/temp/abc.webm'' = None"
  by (simp add: findAndRenameOutputFile_cases possibleFiles_abc webm_writer_def fresh_world_def
      no_files_def)

lemma download_GET_files:
  "files w1 = files w2 \<Longrightarrow> fst (download_GET cwd videoId w1) = fst (download_GET cwd videoId w2)"
  by (simp add: download_GET_def Let_def split: option.splits)

text \<open>
  C8, as the code has it. No run under strategy 1 has a successful result. The shell
  rejects the command line of the strategy for every output path and address, so the
  download tool is never started: the run fails with the error of \<open>exec\<close>, the files are
  as they were before the run, and the download route answers as it did before it. Nothing
  is moved to \<open>{id}.mp3\<close>.
\<close>

theorem superFast_never_succeeds:
  "sh_syntax_error (superFastCommand (path_join (TEMP_DIR cwd) (videoId @ ''.mp3'')) url)
   \<and> fst (superFastDownloadWithFFmpeg sh cwd url videoId w) = Inl ExecFailed
   \<and> files (snd (superFastDownloadWithFFmpeg sh cwd url videoId w)) = files w
   \<and> execs (snd (superFastDownloadWithFFmpeg sh cwd url videoId w))
       = execs w @ [superFastCommand (path_join (TEMP_DIR cwd) (videoId @ ''.mp3'')) url]
   \<and> fst (download_GET cwd videoId (snd (superFastDownloadWithFFmpeg sh cwd url videoId w)))
       = fst (download_GET cwd videoId w)"
proof -
  have "files (snd (superFastDownloadWithFFmpeg sh cwd url videoId w)) = files w"
    by (simp add: superFast_rejected)
  then have "fst (download_GET cwd videoId (snd (superFastDownloadWithFFmpeg sh cwd url videoId w)))
       = fst (download_GET cwd videoId w)"
    by (rule download_GET_files)
  then show ?thesis
    by (simp add: superFast_rejected superFastCommand_rejected)
qed

lemma superFast_failing_run:
  "fst (superFastDownloadWithFFmpeg webm_writer ''/app'' ''https://youtu.be/abc'' ''abc'' fresh_world)
     = Inl ExecFailed
   \<and> files (snd (superFastDownloadWithFFmpeg webm_writer ''/app'' ''https://youtu.be/abc'' ''abc''
                   fresh_world)) ''/app/temp/abc.mp3'' = None
   \<and> fst (download_GET ''/app'' ''abc''
            (snd (superFastDownloadWithFFmpeg webm_writer ''/app'' ''https://youtu.be/abc'' ''abc''
                    fresh_world))) = NotFound"
  by (simp add: superFast_rejected download_GET_def findVideoFile_def fresh_world_def no_files_def)

subsection \<open>Runs with the download tool: strategies 1 and 2\<close>















subsection \<open>Serving and the delayed deletion\<close>








text \<open>
  A request never touches the deletions already scheduled: it cancels none and postpones
  none, it only adds its own.
\<close>

lemma download_GET_keeps_timers:
  "prefix (timers w) (timers (snd (download_GET cwd videoId w)))"
  by (simp add: download_GET_def Let_def split: option.splits)











subsection \<open>The metadata cache\<close>

lemma fold_evict:
  "fold (\<lambda>(deadline, k) m. m(k := None)) ts m q = (if q \<in> snd ` set ts then None else m q)"
proof (induction ts arbitrary: m)
  case Nil
  show ?case by simp
next
  case (Cons t ts)
  obtain deadline k where t: "t = (deadline, k)" by (cases t)
  have "fold (\<lambda>(deadline, k) m. m(k := None)) (t # ts) m q
          = fold (\<lambda>(deadline, k) m. m(k := None)) ts (m(k := None)) q"
    by (simp add: t)
  also have "\<dots> = (if q \<in> snd ` set ts then None else (m(k := None)) q)"
    by (rule Cons.IH)
  also have "\<dots> = (if q \<in> snd ` set (t # ts) then None else m q)"
    by (simp add: t)
  finally show ?case .
qed

lemma cache_pass:
  "videoInfoCache (pass d s) q =
     (if q \<in> snd ` set (filter (\<lambda>(deadline, k). deadline \<le> clock s + d) (evictions s)) then None
      else videoInfoCache s q)"
  by (simp add: pass_def Let_def fold_evict)

lemma pass_fields:
  "evictions (pass d s) = filter (\<lambda>(deadline, k). \<not> deadline \<le> clock s + d) (evictions s)"
  "clock (pass d s) = clock s + d"
  "lookups (pass d s) = lookups s"
  by (simp_all add: pass_def Let_def)








lemma resolve_calls:
  assumes "resolve src url videoId env t0 = (d, r, calls)"
  shows "calls \<noteq> []"
  using assms
  by (auto simp add: resolve_def Let_def split: if_splits prod.splits option.splits sum.splits)

lemma lookup_begin_hit:
  "videoInfoCache s videoId = Some v \<Longrightarrow> lookup_begin src url videoId env s = (Hit v, s)"
  by (simp add: lookup_begin_def)

lemma lookup_begin_miss:
  assumes "videoInfoCache s videoId = None"
  shows "\<exists>d r calls. calls \<noteq> []
           \<and> lookup_begin src url videoId env s = (Miss d r, s\<lparr>lookups := lookups s @ calls\<rparr>)"
proof -
  obtain d r calls where res: "resolve src url videoId env (clock s) = (d, r, calls)"
    by (cases "resolve src url videoId env (clock s)")
  have "lookup_begin src url videoId env s = (Miss d r, s\<lparr>lookups := lookups s @ calls\<rparr>)"
    using assms res by (simp add: lookup_begin_def)
  with resolve_calls [OF res] show ?thesis by blast
qed

lemma lookup_begin_fields:
  "videoInfoCache (snd (lookup_begin src url j env s)) = videoInfoCache s"
  "evictions (snd (lookup_begin src url j env s)) = evictions s"
  "clock (snd (lookup_begin src url j env s)) = clock s"
  by (simp_all add: lookup_begin_def split: option.splits prod.splits)


lemma getCached_hit:
  "videoInfoCache s videoId = Some v \<Longrightarrow> getCachedVideoInfo src url videoId env s = (Some v, s)"
  by (simp add: getCachedVideoInfo_def lookup_begin_hit)

















subsection \<open>The converter class of the library\<close>

lemma cleanup_apply: "cleanup ps fs q = (if q \<in> set ps then None else fs q)"
  by (induction ps arbitrary: fs) auto

text \<open>
  With the default options (\<open>320\<close>, \<open>mp3\<close>) the converter reports the path
  \<open>{id}.mp3\<close> and moves nothing: the files stay as the download left them, under the
  name \<open>{id}_temp.{ext}\<close>.
\<close>

lemma convertToAudio_default:
  assumes "dl url (path_join tempDir (videoId @ ''_temp'') @ ''.%(ext)s'')
             \<lparr>opt_quality = ''320'', opt_format = ''mp3''\<rparr> fs = (True, fs1)"
  shows "convertToAudio dl ff tempDir url videoId \<lparr>opt_quality = ''320'', opt_format = ''mp3''\<rparr> fs
           = (Inr (path_join tempDir (videoId @ ''.mp3'')), fs1)"
  using assms by (simp add: convertToAudio_def downloadAudio_def Let_def)

text \<open>
  When the download fails, the cleanup removes \<open>{id}_temp\<close>, a name without extension,
  and the output path. A partial download \<open>{id}_temp.{ext}\<close> is neither, and stays.
\<close>

lemma convertToAudio_cleanup:
  assumes "dl url (path_join tempDir (videoId @ ''_temp'') @ ''.%(ext)s'') options fs = (False, fs1)"
    and "ext \<noteq> []"
  shows "fst (convertToAudio dl ff tempDir url videoId options fs) = Inl DownloadFailed"
    and "snd (convertToAudio dl ff tempDir url videoId options fs)
           (path_join tempDir (videoId @ ''_temp'') @ ext)
         = fs1 (path_join tempDir (videoId @ ''_temp'') @ ext)"
  using assms
  by (simp_all add: convertToAudio_def downloadAudio_def Let_def cleanup_apply path_join_def)

subsection \<open>Cached keys and pending evictions\<close>

text \<open>
  No step of the server leaves a timer overdue, so at every store the timers pending for
  the identifier lie ahead of the clock.
\<close>

lemma timely_cold: "timely cold"
  by (simp add: timely_def cold_def)

lemma timely_pass: "timely (pass d s)"
  by (auto simp add: timely_def pass_fields list_all_iff)

lemma timely_begin: "timely s \<Longrightarrow> timely (snd (lookup_begin src url j env s))"
  by (simp add: timely_def lookup_begin_fields)

lemma timely_store: "timely s \<Longrightarrow> timely (snd (cache_result j r s))"
  by (cases r) (simp_all add: timely_def cache_result_def)

lemma timely_pending: "timely s \<Longrightarrow> \<forall>t \<in> set (pending k s). clock s < t"
  by (auto simp add: timely_def pending_def list_all_iff)

text \<open>
  When calls run one after another, starting from the empty cache, the state stays in
  order. So a call that finds no entry finds no eviction pending for its identifier either,
  and the timer of its store is the only one of the identifier.
\<close>

lemma cache_ok_cold: "cache_ok cold"
  by (simp add: cache_ok_def cold_def)

lemma cache_ok_miss:
  "cache_ok s \<Longrightarrow> videoInfoCache s k = None \<Longrightarrow> k \<notin> snd ` set (evictions s)"
  by (auto simp add: cache_ok_def)

lemma cache_ok_log: "cache_ok (s\<lparr>lookups := l\<rparr>) = cache_ok s"
  by (simp add: cache_ok_def)

lemma cache_ok_pass:
  assumes "cache_ok s"
  shows "cache_ok (pass d s)"
proof -
  let ?due = "\<lambda>(deadline, k). deadline \<le> clock s + d"
  have dist: "distinct (map snd (evictions s))" using assms by (simp add: cache_ok_def)
  have "distinct (map snd (filter (\<lambda>t. \<not> ?due t) (evictions s)))"
    using dist by (rule distinct_map_filter)
  moreover have "videoInfoCache (pass d s) k \<noteq> None"
    if "k \<in> snd ` set (filter (\<lambda>t. \<not> ?due t) (evictions s))" for k
  proof -
    from that obtain a where a: "(a, k) \<in> set (evictions s)" "\<not> a \<le> clock s + d" by auto
    have "k \<notin> snd ` set (filter ?due (evictions s))"
    proof
      assume "k \<in> snd ` set (filter ?due (evictions s))"
      then obtain b where b: "(b, k) \<in> set (evictions s)" "b \<le> clock s + d" by auto
      from dist a(1) b(1) have "a = b"
        by (metis fst_conv snd_conv distinct_map inj_on_def)
      with a(2) b(2) show False by simp
    qed
    moreover have "videoInfoCache s k \<noteq> None" using assms a(1) by (force simp add: cache_ok_def)
    ultimately show ?thesis by (simp add: cache_pass)
  qed
  ultimately show ?thesis
    by (simp add: cache_ok_def pass_fields split_def)
qed

lemma cache_ok_store:
  assumes "cache_ok s" and "k \<notin> snd ` set (evictions s)"
  shows "cache_ok (snd (cache_result k r s))"
  using assms by (cases r) (auto simp add: cache_result_def cache_ok_def)

lemma no_eviction_no_pending: "k \<notin> snd ` set (evictions s) \<Longrightarrow> pending k s = []"
  by (force simp add: pending_def filter_empty_conv)

lemma sequential_store:
  assumes "cache_ok s" and "videoInfoCache s videoId = None"
    and "lookup_begin src url videoId env s = (Miss d r, s')"
  shows "cache_ok (pass d s') \<and> videoId \<notin> snd ` set (evictions (pass d s'))
           \<and> pending videoId (pass d s') = []"
proof -
  from lookup_begin_miss [OF assms(2), of src url env] assms(3)
  obtain calls where s': "s' = s\<lparr>lookups := lookups s @ calls\<rparr>" by auto
  have ok: "cache_ok (pass d s')" by (simp add: s' cache_ok_pass cache_ok_log assms(1))
  have "videoId \<notin> snd ` set (evictions s)" using assms(1,2) by (rule cache_ok_miss)
  then have fresh: "videoId \<notin> snd ` set (evictions (pass d s'))"
    by (auto simp add: s' pass_fields)
  from ok fresh no_eviction_no_pending [OF fresh] show ?thesis by simp
qed

lemma cache_ok_getCachedVideoInfo:
  assumes "cache_ok s"
  shows "cache_ok (snd (getCachedVideoInfo src url videoId env s))"
proof (cases "videoInfoCache s videoId")
  case (Some v)
  then show ?thesis using assms by (simp add: getCached_hit)
next
  case None
  from lookup_begin_miss [OF None, of src url env]
  obtain d r s' where started: "lookup_begin src url videoId env s = (Miss d r, s')" by blast
  from sequential_store [OF assms None started]
  have "cache_ok (snd (cache_result videoId r (pass d s')))" by (simp add: cache_ok_store)
  then show ?thesis by (simp add: getCachedVideoInfo_def started)
qed


end
